theory Spec2Isabelle
  imports Main "HOL-Library.AList"
begin

section \<open>Python values\<close>

text \<open>
  Both loaders pass around untyped Python objects (\<^verbatim>\<open>Dict[str, Any]\<close>). The values that can
  reach the payload builders are those of \<^verbatim>\<open>csv.DictReader\<close> (strings, \<^verbatim>\<open>None\<close> for a short
  row, a list of strings under the key \<^verbatim>\<open>None\<close> for a long row) and those of \<^verbatim>\<open>json.loads\<close>.
  A dictionary is an association list in insertion order; its keys are strings or
  \<^verbatim>\<open>None\<close>. A float is carried as the text that \<^verbatim>\<open>repr\<close> prints for it. Characters are
  Isabelle's 8-bit \<^typ>\<open>char\<close>, that is the code points below 256.
\<close>

datatype pyval =
    PNone
  | PBool bool
  | PInt int
  | PFloat string
  | PStr string
  | PList "pyval list"
  | PDict "(string option \<times> pyval) list"

type_synonym pydict = "(string option \<times> pyval) list"

datatype error =
    MissingResourceId
  | InvalidBoolean pyval
  | MissingIdColumn string "string list"
  | NoHeaderRow

subsection \<open>String methods\<close>

definition is_space :: "char \<Rightarrow> bool" where
  "is_space c =
     (let n = (of_char c :: nat)
      in (9 \<le> n \<and> n \<le> 13) \<or> (28 \<le> n \<and> n \<le> 32) \<or> n = 133 \<or> n = 160)"

definition rstrip_chars :: "(char \<Rightarrow> bool) \<Rightarrow> string \<Rightarrow> string" where
  "rstrip_chars p s = rev (dropWhile p (rev s))"

definition strip :: "string \<Rightarrow> string" where
  "strip s = rstrip_chars is_space (dropWhile is_space s)"

definition lower_char :: "char \<Rightarrow> char" where
  "lower_char c =
     (let n = (of_char c :: nat)
      in if (65 \<le> n \<and> n \<le> 90) \<or> (192 \<le> n \<and> n \<le> 222 \<and> n \<noteq> 215)
         then char_of (n + 32) else c)"

definition lower :: "string \<Rightarrow> string" where
  "lower s = map lower_char s"

definition startswith :: "string \<Rightarrow> string \<Rightarrow> bool" where
  "startswith s p = (take (length p) s = p)"

definition endswith :: "string \<Rightarrow> string \<Rightarrow> bool" where
  "endswith s p = (length p \<le> length s \<and> drop (length s - length p) s = p)"

fun split_on :: "char \<Rightarrow> string \<Rightarrow> string list" where
  "split_on sep [] = [[]]"
| "split_on sep (c # cs) =
     (if c = sep then [] # split_on sep cs
      else (case split_on sep cs of
              [] \<Rightarrow> [[c]]
            | part # parts \<Rightarrow> (c # part) # parts))"

subsection \<open>\<^verbatim>\<open>str\<close> and \<^verbatim>\<open>repr\<close>\<close>

definition digit_char :: "nat \<Rightarrow> char" where
  "digit_char d = ''0123456789abcdef'' ! (d mod 16)"

fun nat_digits :: "nat \<Rightarrow> string" where
  "nat_digits n =
     (if n < 10 then [digit_char n] else nat_digits (n div 10) @ [digit_char (n mod 10)])"

definition int_repr :: "int \<Rightarrow> string" where
  "int_repr i = (if i < 0 then CHR ''-'' # nat_digits (nat (- i)) else nat_digits (nat i))"

definition is_printable :: "char \<Rightarrow> bool" where
  "is_printable c =
     (let n = (of_char c :: nat) in (32 \<le> n \<and> n < 127) \<or> (161 \<le> n \<and> n \<noteq> 173))"

definition repr_char :: "char \<Rightarrow> char \<Rightarrow> string" where
  "repr_char quote c =
     (if c = quote \<or> c = CHR 0x5C then [CHR 0x5C, c]
      else if c = CHR 0x09 then [CHR 0x5C, CHR ''t'']
      else if c = CHR 0x0A then [CHR 0x5C, CHR ''n'']
      else if c = CHR 0x0D then [CHR 0x5C, CHR ''r'']
      else if is_printable c then [c]
      else [CHR 0x5C, CHR ''x'', digit_char (of_char c div 16), digit_char (of_char c mod 16)])"

definition str_repr :: "string \<Rightarrow> string" where
  "str_repr s =
     (let quote = (if CHR 0x27 \<in> set s \<and> CHR 0x22 \<notin> set s then CHR 0x22 else CHR 0x27)
      in [quote] @ concat (map (repr_char quote) s) @ [quote])"

fun join :: "string \<Rightarrow> string list \<Rightarrow> string" where
  "join sep [] = []"
| "join sep [x] = x"
| "join sep (x # y # ys) = x @ sep @ join sep (y # ys)"

definition key_repr :: "string option \<Rightarrow> string" where
  "key_repr k = (case k of None \<Rightarrow> ''None'' | Some s \<Rightarrow> str_repr s)"

fun repr :: "pyval \<Rightarrow> string"
  and repr_list :: "pyval list \<Rightarrow> string list"
  and repr_items :: "pydict \<Rightarrow> string list" where
  "repr PNone = ''None''"
| "repr (PBool b) = (if b then ''True'' else ''False'')"
| "repr (PInt i) = int_repr i"
| "repr (PFloat r) = r"
| "repr (PStr s) = str_repr s"
| "repr (PList xs) = ''['' @ join '', '' (repr_list xs) @ '']''"
| "repr (PDict kvs) = ''{'' @ join '', '' (repr_items kvs) @ ''}''"
| "repr_list [] = []"
| "repr_list (x # xs) = repr x # repr_list xs"
| "repr_items [] = []"
| "repr_items ((k, v) # kvs) = (key_repr k @ '': '' @ repr v) # repr_items kvs"

definition str :: "pyval \<Rightarrow> string" where
  "str v = (case v of PStr s \<Rightarrow> s | _ \<Rightarrow> repr v)"

subsection \<open>Truth value, membership in \<^verbatim>\<open>(None, "")\<close>, dictionary reads\<close>

definition truthy :: "pyval \<Rightarrow> bool" where
  "truthy v =
     (case v of
        PNone \<Rightarrow> False
      | PBool b \<Rightarrow> b
      | PInt i \<Rightarrow> i \<noteq> 0
      | PFloat r \<Rightarrow> r \<noteq> ''0.0'' \<and> r \<noteq> ''-0.0''
      | PStr s \<Rightarrow> s \<noteq> []
      | PList xs \<Rightarrow> xs \<noteq> []
      | PDict kvs \<Rightarrow> kvs \<noteq> [])"

definition in_none_or_empty :: "pyval \<Rightarrow> bool" where
  "in_none_or_empty v = (v = PNone \<or> v = PStr [])"

definition dict_get :: "pydict \<Rightarrow> string option \<Rightarrow> pyval" where
  "dict_get d k = (case map_of d k of None \<Rightarrow> PNone | Some v \<Rightarrow> v)"

definition dict_of_pairs :: "pydict \<Rightarrow> pydict" where
  "dict_of_pairs kvs = fold (\<lambda>(k, v) d. AList.update k v d) kvs []"

text \<open>\<^verbatim>\<open>resource_id_override or csv_row.get("resourceId")\<close>: the override is what
  \<^verbatim>\<open>argparse\<close> delivers, \<^verbatim>\<open>None\<close> or a string.\<close>

definition override_or :: "string option \<Rightarrow> pyval \<Rightarrow> pyval" where
  "override_or ov v = (case ov of None \<Rightarrow> v | Some s \<Rightarrow> if s \<noteq> [] then PStr s else v)"

section \<open>CustomResourceLoader.py (variant A)\<close>

text \<open>
  The two dictionary comprehensions of \<^verbatim>\<open>build_payload\<close> keep the keys they iterate over,
  so each is a filter of the items in their order. The error value stands for the
  \<^verbatim>\<open>ValueError\<close> that is raised.
\<close>

definition excluded_keys :: "string option set" where
  "excluded_keys = {Some ''resourceId'', Some ''displayName'', Some ''uniqueId'', Some ''externalUrl''}"

definition build_payload_A :: "pydict \<Rightarrow> string list \<Rightarrow> string option \<Rightarrow> error + pyval" where
  "build_payload_A csv_row csv_headers resource_id_override =
     (let resource_id = override_or resource_id_override (dict_get csv_row (Some ''resourceId''))
      in if resource_id = PNone then Inl MissingResourceId
         else
           let display_name = dict_get csv_row (Some ''displayName'');
               unique_id = dict_get csv_row (Some ''uniqueId'');
               external_url = dict_get csv_row (Some ''externalUrl'');
               custom_properties =
                 filter (\<lambda>(k, v). k \<notin> excluded_keys \<and> \<not> in_none_or_empty v) csv_row;
               resource_obj =
                 [(Some ''displayName'', display_name),
                  (Some ''uniqueId'', unique_id),
                  (Some ''externalUrl'', external_url),
                  (Some ''customProperties'', PDict custom_properties)];
               resource_obj' = filter (\<lambda>(k, v). v \<noteq> PNone) resource_obj
           in Inr (PDict [(Some ''resourceId'', resource_id),
                          (Some ''resources'', PList [PDict resource_obj'])]))"

section \<open>VulnerabilityLoader.py (variant B)\<close>

text \<open>
  \<^verbatim>\<open>json.loads\<close> belongs to the standard library, not to the loader. The functions that call
  it take it as the argument \<open>loads\<close>: the decoded value, or \<open>None\<close> where
  \<^verbatim>\<open>json.JSONDecodeError\<close> is raised. \<open>json_loads\<close> further down is a decoder to run them with.
\<close>

type_synonym loads = "string \<Rightarrow> pyval option"

definition coerce_value :: "loads \<Rightarrow> pyval \<Rightarrow> pyval" where
  "coerce_value loads value =
     (case value of
        PStr s \<Rightarrow>
          (let v = strip s
           in if lower v = ''true'' then PBool True
              else if lower v = ''false'' then PBool False
              else if (startswith v ''['' \<and> endswith v '']'') \<or> (startswith v ''{'' \<and> endswith v ''}'')
                   then (case loads v of Some parsed \<Rightarrow> parsed | None \<Rightarrow> PStr v)
                   else PStr v)
      | _ \<Rightarrow> value)"

definition true_values :: "string list" where
  "true_values = [''true'', ''1'', ''yes'', ''y'', ''t'']"

definition false_values :: "string list" where
  "false_values = [''false'', ''0'', ''no'', ''n'', ''f'']"

definition parse_bool :: "pyval \<Rightarrow> error + bool option" where
  "parse_bool raw_value =
     (if in_none_or_empty raw_value then Inr None
      else case raw_value of
             PBool b \<Rightarrow> Inr (Some b)
           | _ \<Rightarrow>
               (let v = lower (strip (str raw_value))
                in if v \<in> set true_values then Inr (Some True)
                   else if v \<in> set false_values then Inr (Some False)
                   else Inl (InvalidBoolean raw_value)))"

text \<open>
  The two steps of \<^verbatim>\<open>parse_mfa_methods\<close> on the stripped string: the attempt to read a
  JSON array (\<open>None\<close> where the source falls through), and the fall-back to a
  comma-separated list or a single value.
\<close>

definition json_array_of :: "loads \<Rightarrow> string \<Rightarrow> string list option" where
  "json_array_of loads v =
     (if startswith v ''['' \<and> endswith v '']''
      then (case loads v of Some (PList parsed) \<Rightarrow> Some (map str parsed) | _ \<Rightarrow> None)
      else None)"

definition comma_or_single :: "string \<Rightarrow> string list" where
  "comma_or_single v =
     (if CHR '','' \<in> set v
      then map strip (filter (\<lambda>part. strip part \<noteq> []) (split_on CHR '','' v))
      else [v])"

definition parse_mfa_methods :: "loads \<Rightarrow> pyval \<Rightarrow> string list option" where
  "parse_mfa_methods loads raw_value =
     (if in_none_or_empty raw_value then None
      else case raw_value of
             PStr s \<Rightarrow>
               (let v = strip s
                in if v = [] then None
                   else (case json_array_of loads v of
                           Some parsed \<Rightarrow> Some parsed
                         | None \<Rightarrow> Some (comma_or_single v)))
           | PList xs \<Rightarrow> Some (map str xs)
           | _ \<Rightarrow> Some [str raw_value])"

fun build_fields :: "loads \<Rightarrow> pydict \<Rightarrow> string list \<Rightarrow> pydict \<Rightarrow> error + pydict" where
  "build_fields loads csv_row [] resource_obj = Inr resource_obj"
| "build_fields loads csv_row (h # hs) resource_obj =
     (if h = ''resourceId'' then build_fields loads csv_row hs resource_obj
      else
        let raw_value = dict_get csv_row (Some h)
        in if in_none_or_empty raw_value then build_fields loads csv_row hs resource_obj
           else if h = ''mfaMethods'' then
             (case parse_mfa_methods loads raw_value of
                Some parsed \<Rightarrow>
                  build_fields loads csv_row hs
                    (AList.update (Some h) (PList (map PStr parsed)) resource_obj)
              | None \<Rightarrow> build_fields loads csv_row hs resource_obj)
           else if h = ''mfaEnabled'' then
             (case parse_bool raw_value of
                Inl e \<Rightarrow> Inl e
              | Inr (Some parsed_bool) \<Rightarrow>
                  build_fields loads csv_row hs
                    (AList.update (Some h) (PBool parsed_bool) resource_obj)
              | Inr None \<Rightarrow> build_fields loads csv_row hs resource_obj)
           else build_fields loads csv_row hs
                  (AList.update (Some h) (coerce_value loads raw_value) resource_obj))"

definition build_payload_B :: "loads \<Rightarrow> pydict \<Rightarrow> string list \<Rightarrow> string option \<Rightarrow> error + pyval" where
  "build_payload_B loads csv_row headers resource_id_override =
     (let resource_id = override_or resource_id_override (dict_get csv_row (Some ''resourceId''))
      in if \<not> truthy resource_id then Inl MissingResourceId
         else (case build_fields loads csv_row headers [] of
                 Inl e \<Rightarrow> Inl e
               | Inr resource_obj \<Rightarrow>
                   Inr (PDict [(Some ''resources'', PList [PDict resource_obj]),
                               (Some ''resourceId'', resource_id)])))"

section \<open>The row loop of \<^verbatim>\<open>main\<close> (the same text in both files)\<close>

record args =
  api_url :: string
  auth_token :: "string option"
  id_column :: "string option"
  resource_id :: "string option"
  timeout :: int
  dry_run :: bool

record response =
  status_code :: int
  resp_text :: string

text \<open>
  \<^verbatim>\<open>send_row_put\<close> hands its arguments to \<^verbatim>\<open>requests.put\<close>. The network is the argument
  \<open>put\<close>: for the request of row \<open>i\<close> it gives the response, or the message of the
  \<^verbatim>\<open>requests.RequestException\<close> that is raised.
\<close>

type_synonym put = "nat \<Rightarrow> string \<Rightarrow> pyval \<Rightarrow> (string \<times> string) list \<Rightarrow> int \<Rightarrow> string + response"

definition send_row_put ::
  "put \<Rightarrow> nat \<Rightarrow> string \<Rightarrow> pyval \<Rightarrow> (string \<times> string) list \<Rightarrow> int \<Rightarrow> string + response" where
  "send_row_put put i url payload headers tmo = put i url payload headers tmo"

text \<open>What the loop prints, one value for each \<^verbatim>\<open>print\<close> (the dry-run block is one value).\<close>

datatype event =
    FieldsDetected "string list"
  | DryRun nat string pyval
  | RequestFailed nat string
  | RowOk nat string int
  | RowFail nat string int string

definition request_headers :: "args \<Rightarrow> (string \<times> string) list" where
  "request_headers a =
     (''Content-Type'', ''application/json'') #
     (case auth_token a of
        None \<Rightarrow> []
      | Some tok \<Rightarrow> if tok \<noteq> [] then [(''Authorization'', ''Bearer '' @ tok)] else [])"

definition row_url :: "args \<Rightarrow> pydict \<Rightarrow> string list \<Rightarrow> error + string" where
  "row_url a row csv_headers =
     (case id_column a of
        None \<Rightarrow> Inr (api_url a)
      | Some col \<Rightarrow>
          if col = [] then Inr (api_url a)
          else if Some col \<notin> fst ` set row then Inl (MissingIdColumn col csv_headers)
          else Inr (rstrip_chars (\<lambda>c. c = CHR ''/'') (api_url a) @ ''/'' @ str (dict_get row (Some col))))"

definition clean_row :: "pydict \<Rightarrow> pydict" where
  "clean_row row =
     dict_of_pairs
       (map (\<lambda>(k, v). (map_option strip k, (case v of PStr s \<Rightarrow> PStr (strip s) | _ \<Rightarrow> v))) row)"

definition report :: "nat \<Rightarrow> string \<Rightarrow> string + response \<Rightarrow> event" where
  "report i url outcome =
     (case outcome of
        Inl e \<Rightarrow> RequestFailed i e
      | Inr resp \<Rightarrow>
          if 200 \<le> status_code resp \<and> status_code resp < 300
          then RowOk i url (status_code resp)
          else RowFail i url (status_code resp) (take 500 (resp_text resp)))"

text \<open>
  The loop body in the order of the source: the URL, the cleaned row, the payload, then
  the dry-run preview or the request and its report. The result is what was printed and
  the exception that ended the run, if one did. The two files differ in
  \<^verbatim>\<open>build_payload\<close> only, which is the argument \<open>build\<close>.
\<close>

type_synonym builder = "pydict \<Rightarrow> string list \<Rightarrow> string option \<Rightarrow> error + pyval"

fun process_rows ::
  "builder \<Rightarrow> put \<Rightarrow> args \<Rightarrow> string list \<Rightarrow> nat \<Rightarrow> pydict list \<Rightarrow> event list \<times> error option" where
  "process_rows build put a csv_headers i [] = ([], None)"
| "process_rows build put a csv_headers i (row # rows) =
     (case row_url a row csv_headers of
        Inl e \<Rightarrow> ([], Some e)
      | Inr url \<Rightarrow>
          (case build (clean_row row) csv_headers (resource_id a) of
             Inl e \<Rightarrow> ([], Some e)
           | Inr payload \<Rightarrow>
               (let ev = (if dry_run a then DryRun i url payload
                          else report i url
                                 (send_row_put put i url payload (request_headers a) (timeout a)));
                    (evs, err) = process_rows build put a csv_headers (Suc i) rows
                in (ev # evs, err))))"

definition main :: "builder \<Rightarrow> put \<Rightarrow> args \<Rightarrow> string list option \<Rightarrow> pydict list \<Rightarrow> event list \<times> error option" where
  "main build put a fieldnames rows =
     (case fieldnames of
        None \<Rightarrow> ([], Some NoHeaderRow)
      | Some names \<Rightarrow>
          (let csv_headers = map strip names;
               (evs, err) = process_rows build put a csv_headers 1 rows
           in (FieldsDetected csv_headers # evs, err)))"

definition main_A :: "put \<Rightarrow> args \<Rightarrow> string list option \<Rightarrow> pydict list \<Rightarrow> event list \<times> error option" where
  "main_A = main build_payload_A"

definition main_B :: "loads \<Rightarrow> put \<Rightarrow> args \<Rightarrow> string list option \<Rightarrow> pydict list \<Rightarrow> event list \<times> error option" where
  "main_B loads = main (build_payload_B loads)"

section \<open>A JSON decoder\<close>

text \<open>
  A decoder in the shape of the library's \<^verbatim>\<open>json.decoder\<close> and \<^verbatim>\<open>json.scanner\<close>, for running
  the loader on concrete cells. It reads 8-bit text: a \<^verbatim>\<open>\u\<close> escape beyond code point 255 is
  refused, and a number with a fraction or an exponent is kept as written. The recursion
  is bounded by a counter that starts at twice the length of the text plus two; a run
  that used it up would refuse the text.
\<close>

definition json_ws :: "char \<Rightarrow> bool" where
  "json_ws c = (c = CHR '' '' \<or> c = CHR 0x09 \<or> c = CHR 0x0A \<or> c = CHR 0x0D)"

definition skip_ws :: "string \<Rightarrow> string" where
  "skip_ws s = dropWhile json_ws s"

definition hex_val :: "char \<Rightarrow> nat option" where
  "hex_val c =
     (let n = (of_char c :: nat)
      in if 48 \<le> n \<and> n \<le> 57 then Some (n - 48)
         else if 65 \<le> n \<and> n \<le> 70 then Some (n - 55)
         else if 97 \<le> n \<and> n \<le> 102 then Some (n - 87)
         else None)"

definition decode_uXXXX :: "string \<Rightarrow> nat option" where
  "decode_uXXXX s =
     (case map hex_val (take 4 s) of
        [Some a, Some b, Some c, Some d] \<Rightarrow> Some (((a * 16 + b) * 16 + c) * 16 + d)
      | _ \<Rightarrow> None)"

definition backslash :: "char \<Rightarrow> char option" where
  "backslash e =
     (if e = CHR 0x22 \<or> e = CHR 0x5C \<or> e = CHR ''/'' then Some e
      else if e = CHR ''b'' then Some (CHR 0x08)
      else if e = CHR ''f'' then Some (CHR 0x0C)
      else if e = CHR ''n'' then Some (CHR 0x0A)
      else if e = CHR ''r'' then Some (CHR 0x0D)
      else if e = CHR ''t'' then Some (CHR 0x09)
      else None)"

definition cons_chunk :: "char \<Rightarrow> (string \<times> string) option \<Rightarrow> (string \<times> string) option" where
  "cons_chunk c r = (case r of None \<Rightarrow> None | Some (s, rest) \<Rightarrow> Some (c # s, rest))"

fun scanstring :: "string \<Rightarrow> (string \<times> string) option" where
  "scanstring [] = None"
| "scanstring (c # cs) =
     (if c = CHR 0x22 then Some ([], cs)
      else if c = CHR 0x5C then
        (case cs of
           [] \<Rightarrow> None
         | e # cs' \<Rightarrow>
             if e = CHR ''u'' then
               (case decode_uXXXX cs' of
                  None \<Rightarrow> None
                | Some n \<Rightarrow> if n < 256 then cons_chunk (char_of n) (scanstring (drop 4 cs')) else None)
             else (case backslash e of
                     None \<Rightarrow> None
                   | Some ch \<Rightarrow> cons_chunk ch (scanstring cs')))
      else if (of_char c :: nat) < 32 then None
      else cons_chunk c (scanstring cs))"

definition is_digit :: "char \<Rightarrow> bool" where
  "is_digit c = (let n = (of_char c :: nat) in 48 \<le> n \<and> n \<le> 57)"

definition digits_value :: "string \<Rightarrow> int" where
  "digits_value ds = fold (\<lambda>c acc. acc * 10 + (of_char c - 48)) ds 0"

text \<open>\<^verbatim>\<open>NUMBER_RE\<close>: \<^verbatim>\<open>(-?(?:0|[1-9][0-9]*))(\.[0-9]+)?([eE][-+]?[0-9]+)?\<close>, each part with what follows it.\<close>

definition match_integer :: "string \<Rightarrow> (string \<times> string) option" where
  "match_integer s =
     (let (sign, s1) = (case s of c # cs \<Rightarrow> if c = CHR ''-'' then (''-'', cs) else ([], s) | [] \<Rightarrow> ([], s))
      in case s1 of
           [] \<Rightarrow> None
         | d # ds \<Rightarrow>
             if d = CHR ''0'' then Some (sign @ ''0'', ds)
             else if is_digit d then Some (sign @ d # takeWhile is_digit ds, dropWhile is_digit ds)
             else None)"

definition match_frac :: "string \<Rightarrow> string \<times> string" where
  "match_frac s =
     (case s of
        c # cs \<Rightarrow>
          if c = CHR ''.'' \<and> takeWhile is_digit cs \<noteq> []
          then (c # takeWhile is_digit cs, dropWhile is_digit cs) else ([], s)
      | [] \<Rightarrow> ([], s))"

definition match_exp :: "string \<Rightarrow> string \<times> string" where
  "match_exp s =
     (case s of
        c # cs \<Rightarrow>
          if c = CHR ''e'' \<or> c = CHR ''E'' then
            (let (sg, cs') = (case cs of x # xs \<Rightarrow> if x = CHR ''-'' \<or> x = CHR ''+'' then ([x], xs) else ([], cs)
                                       | [] \<Rightarrow> ([], cs))
             in if takeWhile is_digit cs' \<noteq> []
                then (c # sg @ takeWhile is_digit cs', dropWhile is_digit cs') else ([], s))
          else ([], s)
      | [] \<Rightarrow> ([], s))"

definition match_number :: "string \<Rightarrow> (pyval \<times> string) option" where
  "match_number s =
     (case match_integer s of
        None \<Rightarrow> None
      | Some (integer, r1) \<Rightarrow>
          (let (frac, r2) = match_frac r1;
               (ex, r3) = match_exp r2
           in if frac \<noteq> [] \<or> ex \<noteq> [] then Some (PFloat (integer @ frac @ ex), r3)
              else Some (PInt (if startswith integer ''-''
                               then - digits_value (drop 1 integer) else digits_value integer), r3)))"

definition scan_atom :: "string \<Rightarrow> (pyval \<times> string) option" where
  "scan_atom s =
     (if startswith s ''null'' then Some (PNone, drop 4 s)
      else if startswith s ''true'' then Some (PBool True, drop 4 s)
      else if startswith s ''false'' then Some (PBool False, drop 5 s)
      else (case match_number s of
              Some r \<Rightarrow> Some r
            | None \<Rightarrow>
                if startswith s ''NaN'' then Some (PFloat ''nan'', drop 3 s)
                else if startswith s ''Infinity'' then Some (PFloat ''inf'', drop 8 s)
                else if startswith s ''-Infinity'' then Some (PFloat ''-inf'', drop 9 s)
                else None))"

fun scan_once :: "nat \<Rightarrow> string \<Rightarrow> (pyval \<times> string) option"
  and parse_array :: "nat \<Rightarrow> string \<Rightarrow> (pyval list \<times> string) option"
  and parse_object :: "nat \<Rightarrow> string \<Rightarrow> (pydict \<times> string) option" where
  "scan_once 0 s = None"
| "scan_once (Suc n) [] = None"
| "scan_once (Suc n) (c # cs) =
     (if c = CHR 0x22 then
        (case scanstring cs of None \<Rightarrow> None | Some (s, rest) \<Rightarrow> Some (PStr s, rest))
      else if c = CHR ''{'' then
        (case skip_ws cs of
           [] \<Rightarrow> None
         | d # ds \<Rightarrow>
             if d = CHR ''}'' then Some (PDict [], ds)
             else (case parse_object n (d # ds) of
                     None \<Rightarrow> None
                   | Some (pairs, rest) \<Rightarrow> Some (PDict (dict_of_pairs pairs), rest)))
      else if c = CHR ''['' then
        (case skip_ws cs of
           [] \<Rightarrow> None
         | d # ds \<Rightarrow>
             if d = CHR '']'' then Some (PList [], ds)
             else (case parse_array n (d # ds) of
                     None \<Rightarrow> None
                   | Some (vals, rest) \<Rightarrow> Some (PList vals, rest)))
      else scan_atom (c # cs))"
| "parse_array 0 s = None"
| "parse_array (Suc n) s =
     (case scan_once n s of
        None \<Rightarrow> None
      | Some (v, rest) \<Rightarrow>
          (case skip_ws rest of
             [] \<Rightarrow> None
           | d # ds \<Rightarrow>
               if d = CHR '']'' then Some ([v], ds)
               else if d = CHR '','' then
                 (case parse_array n (skip_ws ds) of
                    None \<Rightarrow> None
                  | Some (vals, rest') \<Rightarrow> Some (v # vals, rest'))
               else None))"
| "parse_object 0 s = None"
| "parse_object (Suc n) [] = None"
| "parse_object (Suc n) (q # cs) =
     (if q \<noteq> CHR 0x22 then None
      else (case scanstring cs of
              None \<Rightarrow> None
            | Some (key, r0) \<Rightarrow>
                (case skip_ws r0 of
                   [] \<Rightarrow> None
                 | colon # r1 \<Rightarrow>
                     if colon \<noteq> CHR '':'' then None
                     else (case scan_once n (skip_ws r1) of
                             None \<Rightarrow> None
                           | Some (v, r2) \<Rightarrow>
                               (case skip_ws r2 of
                                  [] \<Rightarrow> None
                                | d # ds \<Rightarrow>
                                    if d = CHR ''}'' then Some ([(Some key, v)], ds)
                                    else if d = CHR '','' then
                                      (case parse_object n (skip_ws ds) of
                                         None \<Rightarrow> None
                                       | Some (pairs, rest') \<Rightarrow> Some ((Some key, v) # pairs, rest'))
                                    else None)))))"

definition json_loads :: "string \<Rightarrow> pyval option" where
  "json_loads s =
     (case scan_once (2 * length s + 2) (skip_ws s) of
        None \<Rightarrow> None
      | Some (v, rest) \<Rightarrow> if skip_ws rest = [] then Some v else None)"

section \<open>Reading a payload\<close>

text \<open>\<^verbatim>\<open>payload["resources"][0]\<close> and \<^verbatim>\<open>payload["resourceId"]\<close>, where they exist.\<close>

definition resources0 :: "pyval \<Rightarrow> pydict option" where
  "resources0 payload =
     (case payload of
        PDict kvs \<Rightarrow>
          (case map_of kvs (Some ''resources'') of
             Some (PList (PDict obj # rest)) \<Rightarrow> Some obj
           | _ \<Rightarrow> None)
      | _ \<Rightarrow> None)"

definition resource_id_of :: "pyval \<Rightarrow> pyval option" where
  "resource_id_of payload =
     (case payload of PDict kvs \<Rightarrow> map_of kvs (Some ''resourceId'') | _ \<Rightarrow> None)"

definition resource_obj_of :: "error + pyval \<Rightarrow> pydict option" where
  "resource_obj_of r = (case r of Inl e \<Rightarrow> None | Inr payload \<Rightarrow> resources0 payload)"

text \<open>The specification's wording of the per-row URL: \<^emph>\<open>one\<close> trailing slash is trimmed
  from the base before \<^verbatim>\<open>/<value>\<close> is appended.\<close>

definition spec_trim_one_slash :: "string \<Rightarrow> string" where
  "spec_trim_one_slash base = (if endswith base ''/'' then butlast base else base)"

definition spec_row_url :: "string \<Rightarrow> string \<Rightarrow> string" where
  "spec_row_url base v = spec_trim_one_slash base @ ''/'' @ v"

section \<open>Null bindings\<close>

text \<open>
  A value is free of null bindings when no dictionary at any depth of it binds a key to
  \<^verbatim>\<open>None\<close>. The cells of \<^verbatim>\<open>csv.DictReader\<close> (strings, \<^verbatim>\<open>None\<close>, lists of strings) are.
\<close>

fun null_free :: "pyval \<Rightarrow> bool"
  and null_free_list :: "pyval list \<Rightarrow> bool"
  and null_free_items :: "pydict \<Rightarrow> bool" where
  "null_free (PList xs) = null_free_list xs"
| "null_free (PDict kvs) = null_free_items kvs"
| "null_free PNone = True"
| "null_free (PBool b) = True"
| "null_free (PInt i) = True"
| "null_free (PFloat r) = True"
| "null_free (PStr s) = True"
| "null_free_list [] = True"
| "null_free_list (x # xs) = (null_free x \<and> null_free_list xs)"
| "null_free_items [] = True"
| "null_free_items ((k, v) # kvs) = (v \<noteq> PNone \<and> null_free v \<and> null_free_items kvs)"

section \<open>Calls on the caller's objects\<close>

text \<open>
  \<^verbatim>\<open>csv_row\<close> and the column list are mutable objects that the caller keeps, so what a second
  call of \<^verbatim>\<open>build_payload\<close> sees depends on what the first one did to them. Here the two
  objects are a state that every access goes through: \<^verbatim>\<open>csv_row.get\<close>,
  \<^verbatim>\<open>csv_row.items()\<close> and the iteration over the column list are the only accesses in
  either body, and each reads. The bodies are written again over that state, statement
  by statement.
\<close>

record env =
  env_row :: pydict
  env_headers :: "string list"

definition row_get :: "string option \<Rightarrow> env \<Rightarrow> pyval \<times> env" where
  "row_get k e = (dict_get (env_row e) k, e)"

definition row_items :: "env \<Rightarrow> pydict \<times> env" where
  "row_items e = (env_row e, e)"

definition headers_iter :: "env \<Rightarrow> string list \<times> env" where
  "headers_iter e = (env_headers e, e)"

definition build_payload_A_call :: "string option \<Rightarrow> env \<Rightarrow> (error + pyval) \<times> env" where
  "build_payload_A_call resource_id_override e0 =
     (let (rid_column, e1) = row_get (Some ''resourceId'') e0;
          resource_id = override_or resource_id_override rid_column
      in if resource_id = PNone then (Inl MissingResourceId, e1)
         else
           let (display_name, e2) = row_get (Some ''displayName'') e1;
               (unique_id, e3) = row_get (Some ''uniqueId'') e2;
               (external_url, e4) = row_get (Some ''externalUrl'') e3;
               (items, e5) = row_items e4;
               custom_properties =
                 filter (\<lambda>(k, v). k \<notin> excluded_keys \<and> \<not> in_none_or_empty v) items;
               resource_obj =
                 [(Some ''displayName'', display_name),
                  (Some ''uniqueId'', unique_id),
                  (Some ''externalUrl'', external_url),
                  (Some ''customProperties'', PDict custom_properties)];
               resource_obj' = filter (\<lambda>(k, v). v \<noteq> PNone) resource_obj
           in (Inr (PDict [(Some ''resourceId'', resource_id),
                           (Some ''resources'', PList [PDict resource_obj'])]), e5))"

fun build_fields_call :: "loads \<Rightarrow> string list \<Rightarrow> pydict \<Rightarrow> env \<Rightarrow> (error + pydict) \<times> env" where
  "build_fields_call loads [] resource_obj e = (Inr resource_obj, e)"
| "build_fields_call loads (h # hs) resource_obj e =
     (if h = ''resourceId'' then build_fields_call loads hs resource_obj e
      else
        let (raw_value, e1) = row_get (Some h) e
        in if in_none_or_empty raw_value then build_fields_call loads hs resource_obj e1
           else if h = ''mfaMethods'' then
             (case parse_mfa_methods loads raw_value of
                Some parsed \<Rightarrow>
                  build_fields_call loads hs
                    (AList.update (Some h) (PList (map PStr parsed)) resource_obj) e1
              | None \<Rightarrow> build_fields_call loads hs resource_obj e1)
           else if h = ''mfaEnabled'' then
             (case parse_bool raw_value of
                Inl err \<Rightarrow> (Inl err, e1)
              | Inr (Some parsed_bool) \<Rightarrow>
                  build_fields_call loads hs
                    (AList.update (Some h) (PBool parsed_bool) resource_obj) e1
              | Inr None \<Rightarrow> build_fields_call loads hs resource_obj e1)
           else build_fields_call loads hs
                  (AList.update (Some h) (coerce_value loads raw_value) resource_obj) e1)"

definition build_payload_B_call :: "loads \<Rightarrow> string option \<Rightarrow> env \<Rightarrow> (error + pyval) \<times> env" where
  "build_payload_B_call loads resource_id_override e0 =
     (let (rid_column, e1) = row_get (Some ''resourceId'') e0;
          resource_id = override_or resource_id_override rid_column
      in if \<not> truthy resource_id then (Inl MissingResourceId, e1)
         else
           let (headers, e2) = headers_iter e1;
               (fields, e3) = build_fields_call loads headers [] e2
           in (case fields of
                 Inl err \<Rightarrow> (Inl err, e3)
               | Inr resource_obj \<Rightarrow>
                   (Inr (PDict [(Some ''resources'', PList [PDict resource_obj]),
                                (Some ''resourceId'', resource_id)]), e3)))"

text \<open>Two calls in a row on the same objects: the second starts from what the first left.\<close>

definition twice :: "(env \<Rightarrow> 'r \<times> env) \<Rightarrow> env \<Rightarrow> 'r \<times> 'r \<times> env" where
  "twice call e = (let (r1, e1) = call e; (r2, e2) = call e1 in (r1, r2, e2))"

section \<open>\<^verbatim>\<open>json.dumps\<close>\<close>

text \<open>
  The text that \<^verbatim>\<open>json.dumps(payload)\<close> writes with its default settings, as \<^verbatim>\<open>requests\<close>
  encodes the body: items in insertion order, \<^verbatim>\<open>", "\<close> and \<^verbatim>\<open>": "\<close> as separators, every
  character outside the printable ASCII range escaped, the key \<^verbatim>\<open>None\<close> written as
  \<^verbatim>\<open>"null"\<close>.
\<close>

definition dumps_char :: "char \<Rightarrow> string" where
  "dumps_char c =
     (if c = CHR 0x22 \<or> c = CHR 0x5C then [CHR 0x5C, c]
      else if c = CHR 0x08 then [CHR 0x5C, CHR ''b'']
      else if c = CHR 0x0C then [CHR 0x5C, CHR ''f'']
      else if c = CHR 0x0A then [CHR 0x5C, CHR ''n'']
      else if c = CHR 0x0D then [CHR 0x5C, CHR ''r'']
      else if c = CHR 0x09 then [CHR 0x5C, CHR ''t'']
      else if 32 \<le> (of_char c :: nat) \<and> (of_char c :: nat) \<le> 126 then [c]
      else [CHR 0x5C, CHR ''u'', CHR ''0'', CHR ''0'',
            digit_char (of_char c div 16), digit_char (of_char c mod 16)])"

definition dumps_str :: "string \<Rightarrow> string" where
  "dumps_str s = [CHR 0x22] @ concat (map dumps_char s) @ [CHR 0x22]"

definition dumps_float :: "string \<Rightarrow> string" where
  "dumps_float r =
     (if r = ''nan'' then ''NaN'' else if r = ''inf'' then ''Infinity''
      else if r = ''-inf'' then ''-Infinity'' else r)"

definition dumps_key :: "string option \<Rightarrow> string" where
  "dumps_key k = (case k of None \<Rightarrow> dumps_str ''null'' | Some s \<Rightarrow> dumps_str s)"

fun dumps :: "pyval \<Rightarrow> string"
  and dumps_list :: "pyval list \<Rightarrow> string list"
  and dumps_items :: "pydict \<Rightarrow> string list" where
  "dumps PNone = ''null''"
| "dumps (PBool b) = (if b then ''true'' else ''false'')"
| "dumps (PInt i) = int_repr i"
| "dumps (PFloat r) = dumps_float r"
| "dumps (PStr s) = dumps_str s"
| "dumps (PList xs) = ''['' @ join '', '' (dumps_list xs) @ '']''"
| "dumps (PDict kvs) = ''{'' @ join '', '' (dumps_items kvs) @ ''}''"
| "dumps_list [] = []"
| "dumps_list (x # xs) = dumps x # dumps_list xs"
| "dumps_items [] = []"
| "dumps_items ((k, v) # kvs) = (dumps_key k @ '': '' @ dumps v) # dumps_items kvs"

section \<open>Variant A: the resource object\<close>

lemma build_payload_A_shape:
  assumes "build_payload_A csv_row csv_headers ov = Inr payload"
  shows "resources0 payload =
           Some (filter (\<lambda>(k, v). v \<noteq> PNone)
              [(Some ''displayName'', dict_get csv_row (Some ''displayName'')),
               (Some ''uniqueId'', dict_get csv_row (Some ''uniqueId'')),
               (Some ''externalUrl'', dict_get csv_row (Some ''externalUrl'')),
               (Some ''customProperties'',
                  PDict (filter (\<lambda>(k, v). k \<notin> excluded_keys \<and> \<not> in_none_or_empty v) csv_row))])"
  using assms
  by (auto simp: build_payload_A_def Let_def resources0_def split: if_splits)

text \<open>
  \<^bold>\<open>C10.\<close> Whenever variant A builds a payload, its \<^verbatim>\<open>resources[0]\<close> has the key
  \<^verbatim>\<open>customProperties\<close>, bound to a dictionary; that dictionary is empty exactly when every
  column of the record is one of the four excluded names or holds \<^verbatim>\<open>None\<close> or the empty
  string. The filter on \<^verbatim>\<open>None\<close> never removes it.
\<close>

theorem custom_properties_always_present:
  assumes "build_payload_A csv_row csv_headers ov = Inr payload"
  shows "\<exists>obj props.
           resources0 payload = Some obj \<and>
           map_of obj (Some ''customProperties'') = Some (PDict props) \<and>
           (props = [] \<longleftrightarrow> (\<forall>(k, v) \<in> set csv_row. k \<in> excluded_keys \<or> in_none_or_empty v))"
proof -
  let ?props = "filter (\<lambda>(k, v). k \<notin> excluded_keys \<and> \<not> in_none_or_empty v) csv_row"
  have "?props = [] \<longleftrightarrow> (\<forall>(k, v) \<in> set csv_row. k \<in> excluded_keys \<or> in_none_or_empty v)"
    by (auto simp: filter_empty_conv)
  moreover have "\<exists>obj. resources0 payload = Some obj \<and>
        map_of obj (Some ''customProperties'') = Some (PDict ?props)"
    using build_payload_A_shape [OF assms] by simp
  ultimately show ?thesis by blast
qed

theorem custom_properties_always_present_witness:
  "\<exists>obj. resource_obj_of (build_payload_A [(Some ''resourceId'', PStr ''r1''), (Some ''team'', PStr '''')]
              [''resourceId'', ''team''] None) = Some obj \<and>
         map_of obj (Some ''customProperties'') = Some (PDict [])"
proof -
  have b: "build_payload_A [(Some ''resourceId'', PStr ''r1''), (Some ''team'', PStr '''')]
              [''resourceId'', ''team''] None =
           Inr (PDict [(Some ''resourceId'', PStr ''r1''),
                       (Some ''resources'', PList [PDict [(Some ''customProperties'', PDict [])]])])"
    by (simp add: build_payload_A_def override_or_def dict_get_def excluded_keys_def in_none_or_empty_def)
  show ?thesis
    using custom_properties_always_present [OF b]
    by (auto simp: b resource_obj_of_def excluded_keys_def in_none_or_empty_def)
qed

text \<open>
  \<^bold>\<open>C2\<close> as the specification words it fails on its own example: the record
  \<^verbatim>\<open>{resourceId: "r1", displayName: "", uniqueId: "u1"}\<close> is built into a \<^verbatim>\<open>resources[0]\<close>
  that does hold the key \<^verbatim>\<open>displayName\<close>, bound to the empty string.
\<close>

theorem empty_standard_column_counterexample:
  "resource_obj_of
     (build_payload_A
        [(Some ''resourceId'', PStr ''r1''), (Some ''displayName'', PStr ''''), (Some ''uniqueId'', PStr ''u1'')]
        [''resourceId'', ''displayName'', ''uniqueId''] None) =
   Some [(Some ''displayName'', PStr ''''), (Some ''uniqueId'', PStr ''u1''),
         (Some ''customProperties'', PDict [])]"
  by (simp add: build_payload_A_def override_or_def dict_get_def excluded_keys_def
      in_none_or_empty_def resource_obj_of_def resources0_def)

text \<open>
  \<^bold>\<open>C2, amended.\<close> In variant A the keys of \<^verbatim>\<open>resources[0]\<close> are among \<^verbatim>\<open>displayName\<close>,
  \<^verbatim>\<open>uniqueId\<close>, \<^verbatim>\<open>externalUrl\<close> and \<^verbatim>\<open>customProperties\<close>. Each of the first three is present
  exactly when the record's value for it is not \<^verbatim>\<open>None\<close> (the column is there), and is then
  bound to that value as it is, the empty string included. \<^verbatim>\<open>customProperties\<close> holds
  exactly the pairs of the record whose column is not one of the four excluded names and
  whose value is neither \<^verbatim>\<open>None\<close> nor the empty string, each copied as it is.
\<close>

theorem resource_obj_A_keys:
  assumes "build_payload_A csv_row csv_headers ov = Inr payload"
  shows "\<exists>obj props.
           resources0 payload = Some obj \<and>
           (\<forall>k \<in> {''displayName'', ''uniqueId'', ''externalUrl''}.
              map_of obj (Some k) =
                (if dict_get csv_row (Some k) = PNone then None else Some (dict_get csv_row (Some k)))) \<and>
           fst ` set obj \<subseteq>
             {Some ''displayName'', Some ''uniqueId'', Some ''externalUrl'', Some ''customProperties''} \<and>
           map_of obj (Some ''customProperties'') = Some (PDict props) \<and>
           (\<forall>k v. (k, v) \<in> set props \<longleftrightarrow>
                    (k, v) \<in> set csv_row \<and> k \<notin> excluded_keys \<and> v \<noteq> PNone \<and> v \<noteq> PStr [])"
  using build_payload_A_shape [OF assms]
  by (auto simp: in_none_or_empty_def)

theorem resource_obj_A_keys_witness:
  "\<exists>obj. resource_obj_of
           (build_payload_A
              [(Some ''resourceId'', PStr ''r1''), (Some ''displayName'', PStr ''''),
               (Some ''uniqueId'', PNone), (Some ''team'', PStr ''core''), (Some ''note'', PStr '''')]
              [''resourceId'', ''displayName'', ''uniqueId'', ''team'', ''note''] None) = Some obj \<and>
         map_of obj (Some ''displayName'') = Some (PStr '''') \<and>
         map_of obj (Some ''uniqueId'') = None \<and>
         map_of obj (Some ''externalUrl'') = None \<and>
         map_of obj (Some ''customProperties'') = Some (PDict [(Some ''team'', PStr ''core'')])"
proof -
  let ?row = "[(Some ''resourceId'', PStr ''r1''), (Some ''displayName'', PStr ''''),
               (Some ''uniqueId'', PNone), (Some ''team'', PStr ''core''), (Some ''note'', PStr '''')]"
  have b: "build_payload_A ?row [''resourceId'', ''displayName'', ''uniqueId'', ''team'', ''note''] None =
           Inr (PDict [(Some ''resourceId'', PStr ''r1''),
                       (Some ''resources'',
                        PList [PDict [(Some ''displayName'', PStr ''''),
                                      (Some ''customProperties'', PDict [(Some ''team'', PStr ''core'')])]])])"
    by (simp add: build_payload_A_def override_or_def dict_get_def excluded_keys_def in_none_or_empty_def)
  show ?thesis
    using resource_obj_A_keys [OF b]
    by (simp add: b resource_obj_of_def resources0_def)
qed

section \<open>Variant B: the coercions\<close>

lemma str_PStr [simp]: "str (PStr s) = s"
  by (simp add: str_def)

lemma dropWhile_idem: "dropWhile p (dropWhile p xs) = dropWhile p xs"
  by (induction xs) auto

lemma rstrip_chars_idem: "rstrip_chars p (rstrip_chars p s) = rstrip_chars p s"
  by (simp add: rstrip_chars_def dropWhile_idem)

lemma dropWhile_rstrip_chars:
  "dropWhile p (rstrip_chars p (dropWhile p s)) = rstrip_chars p (dropWhile p s)"
proof (cases "dropWhile p s")
  case Nil
  show ?thesis unfolding Nil by (simp add: rstrip_chars_def)
next
  case (Cons c cs)
  then have c: "\<not> p c" using hd_dropWhile [of p s] by force
  have "rstrip_chars p (c # cs) = c # rstrip_chars p cs"
    using c by (simp add: rstrip_chars_def dropWhile_append3)
  then show ?thesis using Cons c by simp
qed

lemma strip_idem: "strip (strip s) = strip s"
  by (simp add: strip_def dropWhile_rstrip_chars rstrip_chars_idem)

text \<open>
  \<^bold>\<open>C4.\<close> For a non-empty string cell, \<^verbatim>\<open>parse_bool\<close> strips and lower-cases it and then
  decides by a fixed vocabulary: \<^verbatim>\<open>true, 1, yes, y, t\<close> give \<^verbatim>\<open>True\<close>;
  \<^verbatim>\<open>false, 0, no, n, f\<close> give \<^verbatim>\<open>False\<close>; anything else raises the error that carries the
  offending cell. In particular \<^verbatim>\<open>"Yes"\<close> gives \<^verbatim>\<open>True\<close>, \<^verbatim>\<open>"0"\<close> gives \<^verbatim>\<open>False\<close> and
  \<^verbatim>\<open>"maybe"\<close> raises.
\<close>

theorem parse_bool_vocabulary:
  assumes "s \<noteq> []"
  shows "(lower (strip s) \<in> {''true'', ''1'', ''yes'', ''y'', ''t''} \<longrightarrow>
            parse_bool (PStr s) = Inr (Some True)) \<and>
         (lower (strip s) \<in> {''false'', ''0'', ''no'', ''n'', ''f''} \<longrightarrow>
            parse_bool (PStr s) = Inr (Some False)) \<and>
         (lower (strip s) \<notin> {''true'', ''1'', ''yes'', ''y'', ''t'', ''false'', ''0'', ''no'', ''n'', ''f''} \<longrightarrow>
            parse_bool (PStr s) = Inl (InvalidBoolean (PStr s))) \<and>
         parse_bool (PStr ''Yes'') = Inr (Some True) \<and>
         parse_bool (PStr ''0'') = Inr (Some False) \<and>
         parse_bool (PStr ''maybe'') = Inl (InvalidBoolean (PStr ''maybe''))"
proof -
  have ex: "lower (strip ''Yes'') = ''yes''" "lower (strip ''0'') = ''0''"
      "lower (strip ''maybe'') = ''maybe''"
    by code_simp+
  have gen: "parse_bool (PStr t) =
      (if lower (strip t) \<in> {''true'', ''1'', ''yes'', ''y'', ''t''} then Inr (Some True)
       else if lower (strip t) \<in> {''false'', ''0'', ''no'', ''n'', ''f''} then Inr (Some False)
       else Inl (InvalidBoolean (PStr t)))" if "t \<noteq> []" for t
    using that
    by (simp add: parse_bool_def in_none_or_empty_def true_values_def false_values_def Let_def)
  show ?thesis
    using assms by (simp add: gen ex)
qed

theorem parse_bool_vocabulary_witness:
  "parse_bool (PStr '' TRUE '') = Inr (Some True) \<and>
   parse_bool (PStr ''N'') = Inr (Some False) \<and>
   parse_bool (PStr ''2'') = Inl (InvalidBoolean (PStr ''2''))"
proof -
  have l: "lower (strip '' TRUE '') = ''true''" "lower (strip ''N'') = ''n''"
      "lower (strip ''2'') = ''2''"
    by code_simp+
  show ?thesis
    using parse_bool_vocabulary [of "'' TRUE ''"] parse_bool_vocabulary [of "''N''"]
      parse_bool_vocabulary [of "''2''"]
    by (simp add: l)
qed

lemma parse_mfa_methods_str:
  assumes "strip s \<noteq> []"
  shows "parse_mfa_methods loads (PStr s) =
           (case json_array_of loads (strip s) of
              Some parsed \<Rightarrow> Some parsed
            | None \<Rightarrow> Some (comma_or_single (strip s)))"
proof -
  have "s \<noteq> []" using assms by (auto simp: strip_def rstrip_chars_def)
  then show ?thesis using assms
    by (simp add: parse_mfa_methods_def in_none_or_empty_def Let_def)
qed

text \<open>
  \<^bold>\<open>C3.\<close> For a string cell that is not blank, with \<open>v\<close> the stripped cell,
  \<^verbatim>\<open>parse_mfa_methods\<close> applies three rules in this order. If \<open>v\<close> is bracketed by
  \<^verbatim>\<open>[\<close> and \<^verbatim>\<open>]\<close> and decodes to a JSON array, the result is \<^verbatim>\<open>str\<close> of each element.
  Otherwise, if \<open>v\<close> holds a comma, it is split on commas, each part stripped and the empty
  parts dropped. Otherwise the result is the one-element list of \<open>v\<close>. A \<open>v\<close> that decodes
  to JSON other than an array is handled by the second and third rule. The three cells of
  the specification give the lists it states.
\<close>

theorem parse_mfa_methods_precedence:
  assumes "strip s \<noteq> []"
  shows \<open>(\<forall>xs. startswith (strip s) ''['' \<and> endswith (strip s) '']'' \<and> loads (strip s) = Some (PList xs) \<longrightarrow>
            parse_mfa_methods loads (PStr s) = Some (map str xs)) \<and>
         (\<not> (startswith (strip s) ''['' \<and> endswith (strip s) '']'' \<and> (\<exists>xs. loads (strip s) = Some (PList xs))) \<longrightarrow>
            parse_mfa_methods loads (PStr s) =
              (if CHR '','' \<in> set (strip s)
               then Some (map strip (filter (\<lambda>part. strip part \<noteq> []) (split_on CHR '','' (strip s))))
               else Some [strip s])) \<and>
         (\<forall>j. loads (strip s) = Some j \<and> (\<forall>xs. j \<noteq> PList xs) \<longrightarrow>
            parse_mfa_methods loads (PStr s) = Some (comma_or_single (strip s))) \<and>
         parse_mfa_methods json_loads (PStr ''["PUSH_PROMPT","SMS"]'') = Some [''PUSH_PROMPT'', ''SMS''] \<and>
         parse_mfa_methods json_loads (PStr ''PUSH_PROMPT,SMS'') = Some [''PUSH_PROMPT'', ''SMS''] \<and>
         parse_mfa_methods json_loads (PStr ''PUSH_PROMPT'') = Some [''PUSH_PROMPT'']\<close>
proof -
  have a: "parse_mfa_methods loads (PStr s) = Some (map str xs)"
    if "startswith (strip s) ''[''" "endswith (strip s) '']''" "loads (strip s) = Some (PList xs)" for xs
    using that by (simp add: parse_mfa_methods_str [OF assms] json_array_of_def)
  have none: "json_array_of loads (strip s) = None"
    if "\<not> (startswith (strip s) ''['' \<and> endswith (strip s) '']'' \<and> (\<exists>xs. loads (strip s) = Some (PList xs)))"
    using that by (auto simp: json_array_of_def split: option.splits pyval.splits)
  have b: "parse_mfa_methods loads (PStr s) =
              (if CHR '','' \<in> set (strip s)
               then Some (map strip (filter (\<lambda>part. strip part \<noteq> []) (split_on CHR '','' (strip s))))
               else Some [strip s])"
    if "\<not> (startswith (strip s) ''['' \<and> endswith (strip s) '']'' \<and> (\<exists>xs. loads (strip s) = Some (PList xs)))"
    using none [OF that] by (simp add: parse_mfa_methods_str [OF assms] comma_or_single_def)
  have c: "parse_mfa_methods loads (PStr s) = Some (comma_or_single (strip s))"
    if "loads (strip s) = Some j" "\<forall>xs. j \<noteq> PList xs" for j
  proof -
    have "json_array_of loads (strip s) = None"
      using that by (cases j) (auto simp: json_array_of_def)
    then show ?thesis by (simp add: parse_mfa_methods_str [OF assms])
  qed
  have e1: \<open>parse_mfa_methods json_loads (PStr ''["PUSH_PROMPT","SMS"]'') = Some [''PUSH_PROMPT'', ''SMS'']\<close>
    by code_simp
  have e2: "parse_mfa_methods json_loads (PStr ''PUSH_PROMPT,SMS'') = Some [''PUSH_PROMPT'', ''SMS'']"
    by code_simp
  have e3: "parse_mfa_methods json_loads (PStr ''PUSH_PROMPT'') = Some [''PUSH_PROMPT'']"
    by code_simp
  show ?thesis
    using a b c e1 e2 e3 by blast
qed

theorem parse_mfa_methods_precedence_witness:
  \<open>parse_mfa_methods json_loads (PStr '' ["SMS", 7] '') = Some [''SMS'', ''7''] \<and>
   parse_mfa_methods json_loads (PStr ''[SMS, TOTP ,]'') = Some [''[SMS'', ''TOTP'', '']''] \<and>
   parse_mfa_methods json_loads (PStr ''{"a":1,"b":2}'') = Some [''{"a":1'', ''"b":2}'']\<close>
proof -
  have s1: \<open>strip '' ["SMS", 7] '' = ''["SMS", 7]''\<close> and s2: "strip ''[SMS, TOTP ,]'' = ''[SMS, TOTP ,]''"
    and s3: \<open>strip ''{"a":1,"b":2}'' = ''{"a":1,"b":2}''\<close>
    by code_simp+
  have l1: \<open>json_loads ''["SMS", 7]'' = Some (PList [PStr ''SMS'', PInt 7])\<close>
    and l2: "json_loads ''[SMS, TOTP ,]'' = None"
    and l3: \<open>json_loads ''{"a":1,"b":2}'' = Some (PDict [(Some ''a'', PInt 1), (Some ''b'', PInt 2)])\<close>
    by code_simp+
  have m: "str (PInt 7) = ''7''"
    by code_simp
  have sp: "map strip (filter (\<lambda>part. strip part \<noteq> []) (split_on CHR '','' ''[SMS, TOTP ,]'')) =
        [''[SMS'', ''TOTP'', '']'']"
    by code_simp
  have c3: \<open>comma_or_single ''{"a":1,"b":2}'' = [''{"a":1'', ''"b":2}'']\<close>
    by code_simp
  have w1: \<open>parse_mfa_methods json_loads (PStr '' ["SMS", 7] '') = Some [''SMS'', ''7'']\<close>
    using parse_mfa_methods_precedence [of \<open>'' ["SMS", 7] ''\<close> json_loads, THEN conjunct1]
    by (simp add: s1 l1 m startswith_def endswith_def)
  have w2: "parse_mfa_methods json_loads (PStr ''[SMS, TOTP ,]'') = Some [''[SMS'', ''TOTP'', '']'']"
    using parse_mfa_methods_precedence [of "''[SMS, TOTP ,]''" json_loads, THEN conjunct2, THEN conjunct1]
    by (simp add: s2 l2 sp del: split_on.simps)
  have w3: \<open>parse_mfa_methods json_loads (PStr ''{"a":1,"b":2}'') = Some [''{"a":1'', ''"b":2}'']\<close>
    using parse_mfa_methods_precedence [of \<open>''{"a":1,"b":2}''\<close> json_loads,
        THEN conjunct2, THEN conjunct2, THEN conjunct1]
    by (simp add: s3 l3 c3)
  show ?thesis
    using w1 w2 w3 by blast
qed

text \<open>
  \<^bold>\<open>C5.\<close> For a string cell, with \<open>v\<close> the stripped cell, \<^verbatim>\<open>coerce_value\<close> gives the boolean
  when \<open>v\<close> is \<^verbatim>\<open>true\<close> or \<^verbatim>\<open>false\<close> in any letter case; otherwise, when \<open>v\<close> is bracketed
  by \<^verbatim>\<open>[ ]\<close> or by \<^verbatim>\<open>{ }\<close>, the decoded JSON value if decoding succeeds and the string
  \<open>v\<close> if it fails; otherwise the string \<open>v\<close>. A cell of a cleaned row is already stripped,
  so \<open>v\<close> is the cell itself. \<^verbatim>\<open>"True"\<close> becomes \<^verbatim>\<open>True\<close>, \<^verbatim>\<open>'{"a":1}'\<close> the decoded
  object and \<^verbatim>\<open>"hello"\<close> stays \<^verbatim>\<open>"hello"\<close>.
\<close>

theorem coerce_value_rules:
  \<open>(lower (strip s) = ''true'' \<longrightarrow> coerce_value loads (PStr s) = PBool True) \<and>
   (lower (strip s) = ''false'' \<longrightarrow> coerce_value loads (PStr s) = PBool False) \<and>
   (lower (strip s) \<noteq> ''true'' \<and> lower (strip s) \<noteq> ''false'' \<longrightarrow>
      (if (startswith (strip s) ''['' \<and> endswith (strip s) '']'') \<or>
          (startswith (strip s) ''{'' \<and> endswith (strip s) ''}'')
       then (\<forall>parsed. loads (strip s) = Some parsed \<longrightarrow> coerce_value loads (PStr s) = parsed) \<and>
            (loads (strip s) = None \<longrightarrow> coerce_value loads (PStr s) = PStr (strip s))
       else coerce_value loads (PStr s) = PStr (strip s))) \<and>
   coerce_value loads (PStr (strip s)) = coerce_value loads (PStr s) \<and>
   coerce_value json_loads (PStr ''True'') = PBool True \<and>
   coerce_value json_loads (PStr ''{"a":1}'') = PDict [(Some ''a'', PInt 1)] \<and>
   coerce_value json_loads (PStr ''hello'') = PStr ''hello''\<close>
proof -
  have e1: "coerce_value json_loads (PStr ''True'') = PBool True"
    by code_simp
  have e2: \<open>coerce_value json_loads (PStr ''{"a":1}'') = PDict [(Some ''a'', PInt 1)]\<close>
    by code_simp
  have e3: "coerce_value json_loads (PStr ''hello'') = PStr ''hello''"
    by code_simp
  have idem: "coerce_value loads (PStr (strip s)) = coerce_value loads (PStr s)"
    by (simp add: coerce_value_def strip_idem)
  show ?thesis
    by (simp add: e1 e2 e3 idem) (simp add: coerce_value_def Let_def)
qed

theorem coerce_value_rules_witness:
  \<open>coerce_value json_loads (PStr ''FALSE'') = PBool False \<and>
   coerce_value json_loads (PStr ''[1, "x"]'') = PList [PInt 1, PStr ''x''] \<and>
   coerce_value json_loads (PStr ''{not json}'') = PStr ''{not json}'' \<and>
   coerce_value json_loads (PStr ''2025-12-05T02:24:11Z'') = PStr ''2025-12-05T02:24:11Z''\<close>
proof -
  have s: "strip ''FALSE'' = ''FALSE''" \<open>strip ''[1, "x"]'' = ''[1, "x"]''\<close>
      "strip ''{not json}'' = ''{not json}''" "strip ''2025-12-05T02:24:11Z'' = ''2025-12-05T02:24:11Z''"
    by code_simp+
  have l: "lower ''FALSE'' = ''false''" \<open>lower ''[1, "x"]'' = ''[1, "x"]''\<close>
      "lower ''{not json}'' = ''{not json}''" "lower ''2025-12-05T02:24:11Z'' = ''2025-12-05t02:24:11z''"
    by code_simp+
  have j: \<open>json_loads ''[1, "x"]'' = Some (PList [PInt 1, PStr ''x''])\<close>
      "json_loads ''{not json}'' = None"
    by code_simp+
  show ?thesis
    using coerce_value_rules [of "''FALSE''" json_loads]
      coerce_value_rules [of \<open>''[1, "x"]''\<close> json_loads]
      coerce_value_rules [of "''{not json}''" json_loads]
      coerce_value_rules [of "''2025-12-05T02:24:11Z''" json_loads]
    by (simp add: s l j startswith_def endswith_def)
qed

section \<open>The payload invariant\<close>

lemma set_update_subset: "set (AList.update k v al) \<subseteq> insert (k, v) (set al)"
  by (induction al) auto

lemma coerce_value_not_None:
  assumes "\<And>s. startswith s ''['' \<or> startswith s ''{'' \<Longrightarrow> loads s \<noteq> Some PNone"
    and "\<not> in_none_or_empty raw"
  shows "coerce_value loads raw \<noteq> PNone"
proof (cases raw)
  case (PStr s)
  show ?thesis
    using assms(1) [of "strip s"]
    by (auto simp: PStr coerce_value_def Let_def split: option.splits)
qed (use assms(2) in \<open>auto simp: coerce_value_def in_none_or_empty_def\<close>)

lemma null_free_items_iff:
  "null_free_items kvs \<longleftrightarrow> (\<forall>(k, v) \<in> set kvs. v \<noteq> PNone \<and> null_free v)"
  by (induction kvs) auto

lemma null_free_list_iff: "null_free_list xs \<longleftrightarrow> (\<forall>x \<in> set xs. null_free x)"
  by (induction xs) auto

lemma dict_get_null_free:
  assumes "\<forall>(k, v) \<in> set d. null_free v"
  shows "null_free (dict_get d k)"
proof (cases "map_of d k")
  case None
  then show ?thesis by (simp add: dict_get_def)
next
  case (Some v)
  then have "(k, v) \<in> set d" by (rule map_of_SomeD)
  then show ?thesis using assms Some by (auto simp: dict_get_def)
qed

lemma override_or_null_free: "null_free v \<Longrightarrow> null_free (override_or ov v)"
  by (simp add: override_or_def split: option.splits)

lemma coerce_value_decoded:
  assumes "null_free raw"
  shows "null_free (coerce_value loads raw) \<or> (\<exists>s. loads s = Some (coerce_value loads raw))"
proof (cases raw)
  case (PStr s)
  show ?thesis
    by (cases "loads (strip s)") (auto simp: PStr coerce_value_def Let_def)
qed (use assms in \<open>auto simp: coerce_value_def\<close>)

lemma build_fields_values:
  assumes "build_fields loads csv_row hs obj = Inr obj'"
    and "\<forall>(k, v) \<in> set obj. Q v"
    and "\<And>parsed. Q (PList (map PStr parsed))"
    and "\<And>b. Q (PBool b)"
    and "\<And>h. \<not> in_none_or_empty (dict_get csv_row (Some h)) \<Longrightarrow>
           Q (coerce_value loads (dict_get csv_row (Some h)))"
  shows "\<forall>(k, v) \<in> set obj'. Q v"
  using assms(1,2)
proof (induction hs arbitrary: obj)
  case Nil
  then show ?case by simp
next
  case (Cons h hs)
  have upd: "\<forall>(k, v) \<in> set (AList.update (Some h) w obj). Q v" if "Q w" for w
    using Cons.prems(2) that set_update_subset [of "Some h" w obj] by auto
  have "\<exists>obj2. build_fields loads csv_row hs obj2 = Inr obj' \<and> (\<forall>(k, v) \<in> set obj2. Q v)"
  proof (cases "h = ''resourceId'' \<or> in_none_or_empty (dict_get csv_row (Some h))")
    case True
    then have "build_fields loads csv_row hs obj = Inr obj'"
      using Cons.prems(1) by (auto simp: Let_def split: if_splits)
    then show ?thesis using Cons.prems(2) by blast
  next
    case False
    then have nb: "\<not> in_none_or_empty (dict_get csv_row (Some h))" and nr: "h \<noteq> ''resourceId''"
      by auto
    consider (m) "h = ''mfaMethods''" | (e) "h = ''mfaEnabled''" | (o) "h \<noteq> ''mfaMethods''" "h \<noteq> ''mfaEnabled''"
      by blast
    then show ?thesis
    proof cases
      case m
      show ?thesis
      proof (cases "parse_mfa_methods loads (dict_get csv_row (Some h))")
        case None
        then have "build_fields loads csv_row hs obj = Inr obj'"
          using Cons.prems(1) nb nr m by (simp add: Let_def)
        then show ?thesis using Cons.prems(2) by blast
      next
        case (Some parsed)
        then have "build_fields loads csv_row hs
            (AList.update (Some h) (PList (map PStr parsed)) obj) = Inr obj'"
          using Cons.prems(1) nb nr m by (simp add: Let_def)
        then show ?thesis using upd [OF assms(3) [of parsed]] by blast
      qed
    next
      case e
      show ?thesis
      proof (cases "parse_bool (dict_get csv_row (Some h))")
        case (Inl err)
        then show ?thesis using Cons.prems(1) nb nr e by (simp add: Let_def)
      next
        case (Inr r)
        show ?thesis
        proof (cases r)
          case None
          then have "build_fields loads csv_row hs obj = Inr obj'"
            using Cons.prems(1) nb nr e Inr by (simp add: Let_def)
          then show ?thesis using Cons.prems(2) by blast
        next
          case (Some b)
          then have "build_fields loads csv_row hs (AList.update (Some h) (PBool b) obj) = Inr obj'"
            using Cons.prems(1) nb nr e Inr by (simp add: Let_def)
          then show ?thesis using upd [OF assms(4) [of b]] by blast
        qed
      qed
    next
      case o
      then have "build_fields loads csv_row hs
          (AList.update (Some h) (coerce_value loads (dict_get csv_row (Some h))) obj) = Inr obj'"
        using Cons.prems(1) nb nr by (simp add: Let_def)
      then show ?thesis using upd [OF assms(5) [OF nb]] by blast
    qed
  qed
  then show ?case using Cons.IH by blast
qed

lemma scan_once_bracket:
  assumes "scan_once n (c # cs) = Some (v, rest)" and "c = CHR ''['' \<or> c = CHR ''{''"
  shows "v \<noteq> PNone"
proof (cases n)
  case 0
  then show ?thesis using assms(1) by simp
next
  case (Suc m)
  show ?thesis
  proof (cases "skip_ws cs")
    case Nil
    then show ?thesis using assms Suc by auto
  next
    case (Cons d ds)
    then show ?thesis
      using assms Suc by (auto split: option.splits if_splits)
  qed
qed

lemma json_loads_bracket:
  assumes "startswith s ''['' \<or> startswith s ''{''"
  shows "json_loads s \<noteq> Some PNone"
proof -
  from assms obtain c cs where s: "s = c # cs" and c: "c = CHR ''['' \<or> c = CHR ''{''"
    by (cases s) (auto simp: startswith_def)
  have ws: "skip_ws s = s"
    using c by (auto simp: s skip_ws_def json_ws_def)
  show ?thesis
  proof
    assume "json_loads s = Some PNone"
    then obtain rest where "scan_once (2 * length s + 2) (c # cs) = Some (PNone, rest)"
      unfolding json_loads_def ws unfolding s
      by (cases "scan_once (2 * length (c # cs) + 2) (c # cs)") (auto split: if_splits)
    then show False using scan_once_bracket [OF _ c] by blast
  qed
qed

text \<open>
  \<^bold>\<open>C1\<close> as the specification words it fails. In variant A a \<^verbatim>\<open>resourceId\<close> column that
  holds the empty string, with no override, is built into a payload whose \<^verbatim>\<open>resourceId\<close>
  is the empty string: no error is raised. In variant B a cell \<^verbatim>\<open>{"a":null}\<close> is decoded
  and inserted as it is, so the payload holds the key \<^verbatim>\<open>a\<close> bound to \<^verbatim>\<open>None\<close> one level
  below \<^verbatim>\<open>resources[0]\<close>.
\<close>

theorem payload_invariant_counterexample:
  \<open>build_payload_A [(Some ''resourceId'', PStr '''')] [''resourceId''] None =
     Inr (PDict [(Some ''resourceId'', PStr ''''),
                 (Some ''resources'', PList [PDict [(Some ''customProperties'', PDict [])]])]) \<and>
   build_payload_B json_loads [(Some ''resourceId'', PStr ''r1''), (Some ''meta'', PStr ''{"a":null}'')]
       [''resourceId'', ''meta''] None =
     Inr (PDict [(Some ''resources'', PList [PDict [(Some ''meta'', PDict [(Some ''a'', PNone)])]]),
                 (Some ''resourceId'', PStr ''r1'')])\<close>
proof -
  have a: "build_payload_A [(Some ''resourceId'', PStr '''')] [''resourceId''] None =
     Inr (PDict [(Some ''resourceId'', PStr ''''),
                 (Some ''resources'', PList [PDict [(Some ''customProperties'', PDict [])]])])"
    by (simp add: build_payload_A_def override_or_def dict_get_def excluded_keys_def in_none_or_empty_def)
  have b: \<open>build_payload_B json_loads [(Some ''resourceId'', PStr ''r1''), (Some ''meta'', PStr ''{"a":null}'')]
       [''resourceId'', ''meta''] None =
     Inr (PDict [(Some ''resources'', PList [PDict [(Some ''meta'', PDict [(Some ''a'', PNone)])]]),
                 (Some ''resourceId'', PStr ''r1'')])\<close>
    by code_simp
  show ?thesis using a b by (rule conjI)
qed

text \<open>
  \<^bold>\<open>C1, amended.\<close> In both variants a built payload has exactly the keys \<^verbatim>\<open>resourceId\<close> and
  \<^verbatim>\<open>resources\<close>, \<^verbatim>\<open>resources\<close> is a one-element list holding a dictionary, and neither the
  \<^verbatim>\<open>resourceId\<close> nor any key of that dictionary is bound to \<^verbatim>\<open>None\<close> (for variant B: given
  that the decoder never returns \<^verbatim>\<open>None\<close> for a text that starts with a bracket). For a
  record whose cells are free of null bindings, as the cells of a CSV row are: in variant A
  no key at any depth of the payload is bound to \<^verbatim>\<open>None\<close>, \<^verbatim>\<open>customProperties\<close> included;
  in variant B every value of \<^verbatim>\<open>resources[0]\<close> is free of null bindings or is a value
  that the decoder returned, so a null binding can only lie inside decoded JSON.
  Variant A raises exactly when the resolved \<^verbatim>\<open>resourceId\<close> is \<^verbatim>\<open>None\<close>. In variant B the
  \<^verbatim>\<open>resourceId\<close> of a payload is moreover not empty, and the build raises
  whenever the resolved \<^verbatim>\<open>resourceId\<close> is \<^verbatim>\<open>None\<close> or empty.
\<close>

theorem payload_invariant:
  \<open>(\<forall>payload. build_payload_A csv_row hs ov = Inr payload \<longrightarrow>
      (\<exists>rid obj. payload = PDict [(Some ''resourceId'', rid), (Some ''resources'', PList [PDict obj])] \<and>
                 rid \<noteq> PNone \<and> (\<forall>(k, v) \<in> set obj. v \<noteq> PNone))) \<and>
   ((\<forall>(k, v) \<in> set csv_row. null_free v) \<longrightarrow>
    (\<forall>payload. build_payload_A csv_row hs ov = Inr payload \<longrightarrow> null_free payload)) \<and>
   ((\<exists>e. build_payload_A csv_row hs ov = Inl e) \<longleftrightarrow>
      override_or ov (dict_get csv_row (Some ''resourceId'')) = PNone) \<and>
   ((\<forall>s. startswith s ''['' \<or> startswith s ''{'' \<longrightarrow> loads s \<noteq> Some PNone) \<longrightarrow>
    (\<forall>payload. build_payload_B loads csv_row hs ov = Inr payload \<longrightarrow>
      (\<exists>rid obj. payload = PDict [(Some ''resources'', PList [PDict obj]), (Some ''resourceId'', rid)] \<and>
                 rid \<noteq> PNone \<and> rid \<noteq> PStr [] \<and> truthy rid \<and> (\<forall>(k, v) \<in> set obj. v \<noteq> PNone)))) \<and>
   ((\<forall>(k, v) \<in> set csv_row. null_free v) \<longrightarrow>
    (\<forall>payload. build_payload_B loads csv_row hs ov = Inr payload \<longrightarrow>
      (\<exists>rid obj. payload = PDict [(Some ''resources'', PList [PDict obj]), (Some ''resourceId'', rid)] \<and>
                 null_free rid \<and>
                 (\<forall>(k, v) \<in> set obj. null_free v \<or> (\<exists>s. loads s = Some v))))) \<and>
   (\<not> truthy (override_or ov (dict_get csv_row (Some ''resourceId''))) \<longrightarrow>
      build_payload_B loads csv_row hs ov = Inl MissingResourceId)\<close>
proof -
  let ?rid = "override_or ov (dict_get csv_row (Some ''resourceId''))"
  have A1: "\<exists>rid obj. payload = PDict [(Some ''resourceId'', rid), (Some ''resources'', PList [PDict obj])] \<and>
                 rid \<noteq> PNone \<and> (\<forall>(k, v) \<in> set obj. v \<noteq> PNone)"
    if "build_payload_A csv_row hs ov = Inr payload" for payload
    using that by (auto simp: build_payload_A_def Let_def split: if_splits)
  have A1': "null_free payload"
    if cells: "\<forall>(k, v) \<in> set csv_row. null_free v"
      and b: "build_payload_A csv_row hs ov = Inr payload" for payload
  proof -
    let ?props = "filter (\<lambda>(k, v). k \<notin> excluded_keys \<and> \<not> in_none_or_empty v) csv_row"
    let ?obj = "filter (\<lambda>(k, v). v \<noteq> PNone)
              [(Some ''displayName'', dict_get csv_row (Some ''displayName'')),
               (Some ''uniqueId'', dict_get csv_row (Some ''uniqueId'')),
               (Some ''externalUrl'', dict_get csv_row (Some ''externalUrl'')),
               (Some ''customProperties'', PDict ?props)]"
    from b have p: "payload = PDict [(Some ''resourceId'', ?rid), (Some ''resources'', PList [PDict ?obj])]"
      and r: "?rid \<noteq> PNone"
      by (auto simp: build_payload_A_def Let_def split: if_splits)
    have g: "null_free (dict_get csv_row k)" for k
      using dict_get_null_free [OF cells] .
    have props: "null_free_items ?props"
      using cells by (auto simp: null_free_items_iff in_none_or_empty_def)
    have obj: "null_free_items ?obj"
      unfolding null_free_items_iff using g props by auto
    have "null_free ?rid"
      using g by (rule override_or_null_free)
    then show ?thesis
      using r obj by (simp add: p)
  qed
  have A2: "(\<exists>e. build_payload_A csv_row hs ov = Inl e) \<longleftrightarrow> ?rid = PNone"
    by (auto simp: build_payload_A_def Let_def)
  have shape: "\<exists>obj. truthy ?rid \<and> build_fields loads csv_row hs [] = Inr obj \<and>
      payload = PDict [(Some ''resources'', PList [PDict obj]), (Some ''resourceId'', ?rid)]"
    if "build_payload_B loads csv_row hs ov = Inr payload" for payload
    using that by (auto simp: build_payload_B_def Let_def split: if_splits sum.splits)
  have B1: "\<exists>rid obj. payload = PDict [(Some ''resources'', PList [PDict obj]), (Some ''resourceId'', rid)] \<and>
                 rid \<noteq> PNone \<and> rid \<noteq> PStr [] \<and> truthy rid \<and> (\<forall>(k, v) \<in> set obj. v \<noteq> PNone)"
    if H: "\<forall>s. startswith s ''['' \<or> startswith s ''{'' \<longrightarrow> loads s \<noteq> Some PNone"
      and b: "build_payload_B loads csv_row hs ov = Inr payload" for payload
  proof -
    from shape [OF b] obtain obj where t: "truthy ?rid" and f: "build_fields loads csv_row hs [] = Inr obj"
      and p: "payload = PDict [(Some ''resources'', PList [PDict obj]), (Some ''resourceId'', ?rid)]"
      by blast
    have "\<forall>(k, v) \<in> set obj. v \<noteq> PNone"
    proof (rule build_fields_values [OF f])
      show "coerce_value loads (dict_get csv_row (Some h)) \<noteq> PNone"
        if "\<not> in_none_or_empty (dict_get csv_row (Some h))" for h
        using coerce_value_not_None [OF _ that] H by blast
    qed simp_all
    moreover have "?rid \<noteq> PNone" "?rid \<noteq> PStr []"
      using t by (auto simp: truthy_def)
    ultimately show ?thesis using p t by blast
  qed
  have B1': "\<exists>rid obj. payload = PDict [(Some ''resources'', PList [PDict obj]), (Some ''resourceId'', rid)] \<and>
                 null_free rid \<and> (\<forall>(k, v) \<in> set obj. null_free v \<or> (\<exists>s. loads s = Some v))"
    if cells: "\<forall>(k, v) \<in> set csv_row. null_free v"
      and b: "build_payload_B loads csv_row hs ov = Inr payload" for payload
  proof -
    from shape [OF b] obtain obj where f: "build_fields loads csv_row hs [] = Inr obj"
      and p: "payload = PDict [(Some ''resources'', PList [PDict obj]), (Some ''resourceId'', ?rid)]"
      by blast
    have "\<forall>(k, v) \<in> set obj. null_free v \<or> (\<exists>s. loads s = Some v)"
    proof (rule build_fields_values [OF f])
      show "null_free (PList (map PStr parsed)) \<or> (\<exists>s. loads s = Some (PList (map PStr parsed)))"
        for parsed
        by (simp add: null_free_list_iff)
      show "null_free (coerce_value loads (dict_get csv_row (Some h))) \<or>
          (\<exists>s. loads s = Some (coerce_value loads (dict_get csv_row (Some h))))" for h
        using coerce_value_decoded [OF dict_get_null_free [OF cells]] .
    qed simp_all
    moreover have "null_free ?rid"
      using dict_get_null_free [OF cells] by (rule override_or_null_free)
    ultimately show ?thesis using p by blast
  qed
  have B2: "build_payload_B loads csv_row hs ov = Inl MissingResourceId"
    if "\<not> truthy ?rid"
    using that by (simp add: build_payload_B_def)
  show ?thesis
    using A1 A1' A2 B1 B1' B2 by blast
qed

theorem payload_invariant_witness:
  \<open>(\<exists>e. build_payload_A [(Some ''displayName'', PStr ''d'')] [''displayName''] None = Inl e) \<and>
   null_free
     (PDict [(Some ''resourceId'', PStr ''r1''),
             (Some ''resources'',
              PList [PDict [(Some ''customProperties'',
                             PDict [(Some ''team'', PStr ''core''), (None, PList [PStr ''extra''])])]])]) \<and>
   build_payload_B json_loads [(Some ''resourceId'', PStr '''')] [''resourceId''] None = Inl MissingResourceId \<and>
   (\<exists>rid obj.
      build_payload_B json_loads [(Some ''resourceId'', PStr ''r1''), (Some ''tags'', PStr ''["a"]'')]
         [''resourceId'', ''tags''] None =
        Inr (PDict [(Some ''resources'', PList [PDict obj]), (Some ''resourceId'', rid)]) \<and>
      truthy rid \<and> (\<forall>(k, v) \<in> set obj. v \<noteq> PNone) \<and>
      (\<forall>(k, v) \<in> set obj. null_free v \<or> (\<exists>s. json_loads s = Some v)))\<close>
proof -
  let ?rowA = "[(Some ''resourceId'', PStr ''r1''), (Some ''uniqueId'', PNone),
                (Some ''team'', PStr ''core''), (Some ''note'', PStr ''''), (None, PList [PStr ''extra''])]"
  let ?hsA = "[''resourceId'', ''uniqueId'', ''team'', ''note'']"
  let ?rowB = \<open>[(Some ''resourceId'', PStr ''r1''), (Some ''tags'', PStr ''["a"]'')]\<close>
  have H: "\<forall>s. startswith s ''['' \<or> startswith s ''{'' \<longrightarrow> json_loads s \<noteq> Some PNone"
    using json_loads_bracket by blast
  have cA: "\<forall>(k, v) \<in> set ?rowA. null_free v" and cB: "\<forall>(k, v) \<in> set ?rowB. null_free v"
    by simp_all
  have a: "build_payload_A ?rowA ?hsA None =
      Inr (PDict [(Some ''resourceId'', PStr ''r1''),
             (Some ''resources'',
              PList [PDict [(Some ''customProperties'',
                             PDict [(Some ''team'', PStr ''core''), (None, PList [PStr ''extra''])])]])])"
    by (simp add: build_payload_A_def override_or_def dict_get_def excluded_keys_def in_none_or_empty_def)
  have b: "build_payload_B json_loads ?rowB [''resourceId'', ''tags''] None =
        Inr (PDict [(Some ''resources'', PList [PDict [(Some ''tags'', PList [PStr ''a''])]]),
                    (Some ''resourceId'', PStr ''r1'')])"
    by code_simp
  have r1: "override_or None (dict_get [(Some ''displayName'', PStr ''d'')] (Some ''resourceId'')) = PNone"
    by (simp add: override_or_def dict_get_def)
  have r2: "\<not> truthy (override_or None (dict_get [(Some ''resourceId'', PStr '''')] (Some ''resourceId'')))"
    by (simp add: override_or_def dict_get_def truthy_def)
  have w1: "\<exists>e. build_payload_A [(Some ''displayName'', PStr ''d'')] [''displayName''] None = Inl e"
    using payload_invariant [of "[(Some ''displayName'', PStr ''d'')]" "[''displayName'']" None json_loads,
        THEN conjunct2, THEN conjunct2, THEN conjunct1] r1
    by (rule iffD2)
  have w1': "null_free
     (PDict [(Some ''resourceId'', PStr ''r1''),
             (Some ''resources'',
              PList [PDict [(Some ''customProperties'',
                             PDict [(Some ''team'', PStr ''core''), (None, PList [PStr ''extra''])])]])])"
    using payload_invariant [of ?rowA ?hsA None json_loads,
        THEN conjunct2, THEN conjunct1, THEN mp, OF cA, THEN spec, THEN mp, OF a] .
  have w2: "build_payload_B json_loads [(Some ''resourceId'', PStr '''')] [''resourceId''] None =
      Inl MissingResourceId"
    using payload_invariant [of "[(Some ''resourceId'', PStr '''')]" "[''resourceId'']" None json_loads,
        THEN conjunct2, THEN conjunct2, THEN conjunct2, THEN conjunct2, THEN conjunct2] r2
    by (rule mp)
  have w3: "\<exists>rid obj.
      PDict [(Some ''resources'', PList [PDict [(Some ''tags'', PList [PStr ''a''])]]),
             (Some ''resourceId'', PStr ''r1'')] =
        PDict [(Some ''resources'', PList [PDict obj]), (Some ''resourceId'', rid)] \<and>
      rid \<noteq> PNone \<and> rid \<noteq> PStr [] \<and> truthy rid \<and> (\<forall>(k, v) \<in> set obj. v \<noteq> PNone)"
    using payload_invariant [of ?rowB "[''resourceId'', ''tags'']" None json_loads,
        THEN conjunct2, THEN conjunct2, THEN conjunct2, THEN conjunct1, THEN mp, OF H,
        THEN spec, THEN mp, OF b] .
  have w4: "\<exists>rid obj.
      PDict [(Some ''resources'', PList [PDict [(Some ''tags'', PList [PStr ''a''])]]),
             (Some ''resourceId'', PStr ''r1'')] =
        PDict [(Some ''resources'', PList [PDict obj]), (Some ''resourceId'', rid)] \<and>
      null_free rid \<and> (\<forall>(k, v) \<in> set obj. null_free v \<or> (\<exists>s. json_loads s = Some v))"
    using payload_invariant [of ?rowB "[''resourceId'', ''tags'']" None json_loads,
        THEN conjunct2, THEN conjunct2, THEN conjunct2, THEN conjunct2, THEN conjunct1, THEN mp, OF cB,
        THEN spec, THEN mp, OF b] .
  show ?thesis
    using w1 w1' w2 w3 w4 unfolding b by auto
qed

section \<open>Resolving \<^verbatim>\<open>resourceId\<close>\<close>

lemma map_of_fold_update:
  "map_of (fold (\<lambda>(k, v) d. AList.update k v d) kvs d) k' =
     (case map_of (rev kvs) k' of Some v \<Rightarrow> Some v | None \<Rightarrow> map_of d k')"
proof (induction kvs arbitrary: d)
  case Nil
  show ?case by simp
next
  case (Cons kv kvs)
  obtain k v where kv: "kv = (k, v)" by (cases kv)
  show ?case
    using Cons.IH [of "AList.update k v d"]
    by (simp add: kv update_conv' map_add_def split: option.splits)
qed

lemma dict_get_clean_row:
  assumes "raw = before @ (Some k, PStr x) # after"
    and "\<forall>(k', v) \<in> set after. map_option strip k' \<noteq> Some (strip k)"
  shows "dict_get (clean_row raw) (Some (strip k)) = PStr (strip x)"
proof -
  let ?f = "\<lambda>(k, v). (map_option strip k, (case v of PStr s \<Rightarrow> PStr (strip s) | _ \<Rightarrow> v))"
  have "Some (strip k) \<notin> fst ` set (rev (map ?f after))"
    using assms(2) by force
  then have n: "map_of (rev (map ?f after)) (Some (strip k)) = None"
    by (rule map_of_eq_None_iff [THEN iffD2])
  have "map_of (rev (map ?f raw)) (Some (strip k)) = Some (PStr (strip x))"
    using n by (simp add: assms(1) map_add_def)
  then show ?thesis
    by (simp add: dict_get_def clean_row_def dict_of_pairs_def map_of_fold_update)
qed

lemma build_fields_total:
  assumes "''mfaEnabled'' \<notin> set hs \<or> (\<forall>e. parse_bool (dict_get csv_row (Some ''mfaEnabled'')) \<noteq> Inl e)"
  shows "\<exists>obj'. build_fields loads csv_row hs obj = Inr obj'"
  using assms
proof (induction hs arbitrary: obj)
  case Nil
  show ?case by simp
next
  case (Cons h hs)
  have tl: "''mfaEnabled'' \<notin> set hs \<or> (\<forall>e. parse_bool (dict_get csv_row (Some ''mfaEnabled'')) \<noteq> Inl e)"
    using Cons.prems by auto
  have ok: "\<forall>e. parse_bool (dict_get csv_row (Some h)) \<noteq> Inl e" if "h = ''mfaEnabled''"
    using Cons.prems that by auto
  show ?case
  proof (cases "h = ''mfaEnabled''")
    case True
    then show ?thesis
      using Cons.IH [OF tl] ok [OF True]
      by (cases "parse_bool (dict_get csv_row (Some h))")
        (auto simp: Let_def split: option.splits)
  next
    case False
    then show ?thesis
      using Cons.IH [OF tl] by (auto simp: Let_def split: option.splits)
  qed
qed

lemma build_payload_B_resolved:
  assumes "override_or ov (dict_get csv_row (Some ''resourceId'')) = PStr t"
  shows "build_payload_B loads csv_row hs ov =
           (if t = [] then Inl MissingResourceId
            else case build_fields loads csv_row hs [] of
                   Inl e \<Rightarrow> Inl e
                 | Inr obj \<Rightarrow>
                     Inr (PDict [(Some ''resources'', PList [PDict obj]), (Some ''resourceId'', PStr t)]))"
  by (simp add: build_payload_B_def assms truthy_def)

text \<open>
  \<^bold>\<open>C6.\<close> With a non-empty override \<open>s\<close>: variant A builds a payload whose \<^verbatim>\<open>resourceId\<close> is
  \<open>s\<close>; variant B gives the error of the field loop if that loop raises and otherwise the
  payload with \<^verbatim>\<open>resourceId\<close> \<open>s\<close>, and the field loop does not raise when there is no
  \<^verbatim>\<open>mfaEnabled\<close> column or its cell parses. The record's own \<^verbatim>\<open>resourceId\<close> plays no part.
  With no override (or an empty one), for a raw row in which the last column whose
  stripped name is \<^verbatim>\<open>resourceId\<close> holds the string \<open>x\<close>: variant A builds, from the cleaned
  row, a payload whose \<^verbatim>\<open>resourceId\<close> is the stripped \<open>x\<close>; variant B raises the
  missing-resourceId error when the stripped \<open>x\<close> is empty, and otherwise does as with
  an override, with the stripped \<open>x\<close> as \<^verbatim>\<open>resourceId\<close>.
\<close>

theorem resource_id_resolution:
  \<open>(ov = Some s \<and> s \<noteq> [] \<longrightarrow>
      (\<exists>p. build_payload_A csv_row hs ov = Inr p \<and> resource_id_of p = Some (PStr s)) \<and>
      build_payload_B loads csv_row hs ov =
        (case build_fields loads csv_row hs [] of
           Inl e \<Rightarrow> Inl e
         | Inr obj \<Rightarrow>
             Inr (PDict [(Some ''resources'', PList [PDict obj]), (Some ''resourceId'', PStr s)])) \<and>
      (''mfaEnabled'' \<notin> set hs \<or> (\<forall>e. parse_bool (dict_get csv_row (Some ''mfaEnabled'')) \<noteq> Inl e) \<longrightarrow>
         (\<exists>p. build_payload_B loads csv_row hs ov = Inr p \<and> resource_id_of p = Some (PStr s)))) \<and>
   ((ov = None \<or> ov = Some []) \<and> raw = before @ (Some k, PStr x) # after \<and>
    strip k = ''resourceId'' \<and>
    (\<forall>(k', v) \<in> set after. map_option strip k' \<noteq> Some ''resourceId'') \<longrightarrow>
      (\<exists>p. build_payload_A (clean_row raw) hs ov = Inr p \<and> resource_id_of p = Some (PStr (strip x))) \<and>
      build_payload_B loads (clean_row raw) hs ov =
        (if strip x = [] then Inl MissingResourceId
         else case build_fields loads (clean_row raw) hs [] of
                Inl e \<Rightarrow> Inl e
              | Inr obj \<Rightarrow>
                  Inr (PDict [(Some ''resources'', PList [PDict obj]),
                              (Some ''resourceId'', PStr (strip x))])) \<and>
      (strip x \<noteq> [] \<and>
       (''mfaEnabled'' \<notin> set hs \<or>
        (\<forall>e. parse_bool (dict_get (clean_row raw) (Some ''mfaEnabled'')) \<noteq> Inl e)) \<longrightarrow>
         (\<exists>p. build_payload_B loads (clean_row raw) hs ov = Inr p \<and>
              resource_id_of p = Some (PStr (strip x))))) \<and>
   ((ov = None \<or> ov = Some []) \<and> dict_get csv_row (Some ''resourceId'') = PStr [] \<longrightarrow>
      build_payload_B loads csv_row hs ov = Inl MissingResourceId)\<close>
proof -
  have A: "\<exists>p. build_payload_A row hs ov = Inr p \<and> resource_id_of p = Some (PStr t)"
    if "override_or ov (dict_get row (Some ''resourceId'')) = PStr t" for row t
    using that by (simp add: build_payload_A_def Let_def resource_id_of_def)
  have B: "\<exists>p. build_payload_B loads row hs ov = Inr p \<and> resource_id_of p = Some (PStr t)"
    if r: "override_or ov (dict_get row (Some ''resourceId'')) = PStr t" and t: "t \<noteq> []"
      and ok: "''mfaEnabled'' \<notin> set hs \<or> (\<forall>e. parse_bool (dict_get row (Some ''mfaEnabled'')) \<noteq> Inl e)"
    for row t
  proof -
    obtain obj where "build_fields loads row hs [] = Inr obj"
      using build_fields_total [OF ok] by blast
    then show ?thesis
      using t by (simp add: build_payload_B_resolved [OF r] resource_id_of_def)
  qed
  have o1: "override_or ov v = PStr s" if "ov = Some s" "s \<noteq> []" for v
    using that by (simp add: override_or_def)
  have o2: "override_or ov v = v" if "ov = None \<or> ov = Some []" for v
    using that by (auto simp: override_or_def)
  have p1: "(\<exists>p. build_payload_A csv_row hs ov = Inr p \<and> resource_id_of p = Some (PStr s)) \<and>
      build_payload_B loads csv_row hs ov =
        (case build_fields loads csv_row hs [] of
           Inl e \<Rightarrow> Inl e
         | Inr obj \<Rightarrow>
             Inr (PDict [(Some ''resources'', PList [PDict obj]), (Some ''resourceId'', PStr s)])) \<and>
      (''mfaEnabled'' \<notin> set hs \<or> (\<forall>e. parse_bool (dict_get csv_row (Some ''mfaEnabled'')) \<noteq> Inl e) \<longrightarrow>
         (\<exists>p. build_payload_B loads csv_row hs ov = Inr p \<and> resource_id_of p = Some (PStr s)))"
    if "ov = Some s" "s \<noteq> []"
    using A [OF o1 [OF that]] B [OF o1 [OF that] that(2)] build_payload_B_resolved [OF o1 [OF that]] that(2)
    by simp
  have p2: "(\<exists>p. build_payload_A (clean_row raw) hs ov = Inr p \<and> resource_id_of p = Some (PStr (strip x))) \<and>
      build_payload_B loads (clean_row raw) hs ov =
        (if strip x = [] then Inl MissingResourceId
         else case build_fields loads (clean_row raw) hs [] of
                Inl e \<Rightarrow> Inl e
              | Inr obj \<Rightarrow>
                  Inr (PDict [(Some ''resources'', PList [PDict obj]),
                              (Some ''resourceId'', PStr (strip x))])) \<and>
      (strip x \<noteq> [] \<and>
       (''mfaEnabled'' \<notin> set hs \<or>
        (\<forall>e. parse_bool (dict_get (clean_row raw) (Some ''mfaEnabled'')) \<noteq> Inl e)) \<longrightarrow>
         (\<exists>p. build_payload_B loads (clean_row raw) hs ov = Inr p \<and>
              resource_id_of p = Some (PStr (strip x))))"
    if "ov = None \<or> ov = Some []" "raw = before @ (Some k, PStr x) # after"
      "strip k = ''resourceId''" "\<forall>(k', v) \<in> set after. map_option strip k' \<noteq> Some ''resourceId''"
  proof -
    have "dict_get (clean_row raw) (Some ''resourceId'') = PStr (strip x)"
      using dict_get_clean_row [OF that(2)] that(3,4) by simp
    then have r: "override_or ov (dict_get (clean_row raw) (Some ''resourceId'')) = PStr (strip x)"
      using o2 [OF that(1)] by simp
    show ?thesis
      using A [OF r] B [OF r] build_payload_B_resolved [OF r] by simp
  qed
  have p3: "build_payload_B loads csv_row hs ov = Inl MissingResourceId"
    if "ov = None \<or> ov = Some []" "dict_get csv_row (Some ''resourceId'') = PStr []"
    using o2 [OF that(1)] that(2) by (simp add: build_payload_B_def truthy_def)
  show ?thesis
    using p1 p2 p3 by blast
qed

theorem resource_id_resolution_witness:
  \<open>(\<exists>p. build_payload_A [(Some ''resourceId'', PStr ''from-csv'')] [''resourceId''] (Some ''from-cli'') = Inr p \<and>
        resource_id_of p = Some (PStr ''from-cli'')) \<and>
   (\<exists>p. build_payload_B json_loads [(Some ''resourceId'', PStr ''from-csv''), (Some ''mfaEnabled'', PStr ''yes'')]
           [''resourceId'', ''mfaEnabled''] (Some ''from-cli'') = Inr p \<and>
        resource_id_of p = Some (PStr ''from-cli'')) \<and>
   (\<exists>p. build_payload_A
           (clean_row [(Some '' resourceId'', PStr '' r1 ''), (Some ''team '', PStr ''a''), (Some ''team'', PStr ''b'')])
           [''resourceId'', ''team'', ''team''] None = Inr p \<and>
        resource_id_of p = Some (PStr ''r1'')) \<and>
   (\<exists>p. build_payload_B json_loads
           (clean_row [(Some '' resourceId'', PStr '' r1 ''), (Some ''team '', PStr ''a''), (Some ''team'', PStr ''b'')])
           [''resourceId'', ''team'', ''team''] None = Inr p \<and>
        resource_id_of p = Some (PStr ''r1'')) \<and>
   build_payload_B json_loads [(Some ''resourceId'', PStr '''')] [''resourceId''] (Some '''') =
     Inl MissingResourceId\<close>
proof -
  let ?rowB = "[(Some ''resourceId'', PStr ''from-csv''), (Some ''mfaEnabled'', PStr ''yes'')]"
  let ?raw = "[(Some '' resourceId'', PStr '' r1 ''), (Some ''team '', PStr ''a''), (Some ''team'', PStr ''b'')]"
  let ?after = "[(Some ''team '', PStr ''a''), (Some ''team'', PStr ''b'')]"
  let ?hs = "[''resourceId'', ''team'', ''team'']"
  have s: "strip '' resourceId'' = ''resourceId''" "strip '' r1 '' = ''r1''"
      "strip ''team '' = ''team''" "strip ''team'' = ''team''"
    by code_simp+
  have pb: "parse_bool (dict_get ?rowB (Some ''mfaEnabled'')) = Inr (Some True)"
    by code_simp
  have ok1: "''mfaEnabled'' \<notin> set [''resourceId'', ''mfaEnabled''] \<or>
      (\<forall>e. parse_bool (dict_get ?rowB (Some ''mfaEnabled'')) \<noteq> Inl e)"
    unfolding pb by simp
  have pre1: "Some ''from-cli'' = Some ''from-cli'' \<and> ''from-cli'' \<noteq> []"
    by simp
  have w1: "\<exists>p. build_payload_A [(Some ''resourceId'', PStr ''from-csv'')] [''resourceId''] (Some ''from-cli'') = Inr p \<and>
        resource_id_of p = Some (PStr ''from-cli'')"
    using resource_id_resolution [where ov = "Some ''from-cli''" and s = "''from-cli''"
        and csv_row = "[(Some ''resourceId'', PStr ''from-csv'')]" and hs = "[''resourceId'']"
        and loads = json_loads, THEN conjunct1, THEN mp, OF pre1, THEN conjunct1] .
  have w1b: "\<exists>p. build_payload_B json_loads ?rowB [''resourceId'', ''mfaEnabled''] (Some ''from-cli'') = Inr p \<and>
        resource_id_of p = Some (PStr ''from-cli'')"
    using resource_id_resolution [where ov = "Some ''from-cli''" and s = "''from-cli''"
        and csv_row = ?rowB and hs = "[''resourceId'', ''mfaEnabled'']" and loads = json_loads,
        THEN conjunct1, THEN mp, OF pre1, THEN conjunct2, THEN conjunct2, THEN mp, OF ok1] .
  have pre2: "((None :: string option) = None \<or> (None :: string option) = Some []) \<and>
      ?raw = [] @ (Some '' resourceId'', PStr '' r1 '') # ?after \<and>
      strip '' resourceId'' = ''resourceId'' \<and>
      (\<forall>(k', v) \<in> set ?after. map_option strip k' \<noteq> Some ''resourceId'')"
    by (simp add: s)
  have ok2: "strip '' r1 '' \<noteq> [] \<and>
      (''mfaEnabled'' \<notin> set ?hs \<or>
       (\<forall>e. parse_bool (dict_get (clean_row ?raw) (Some ''mfaEnabled'')) \<noteq> Inl e))"
    by (simp add: s)
  have w2: "\<exists>p. build_payload_A (clean_row ?raw) ?hs None = Inr p \<and>
      resource_id_of p = Some (PStr (strip '' r1 ''))"
    using resource_id_resolution [where ov = None and raw = ?raw and before = "[]"
        and k = "'' resourceId''" and x = "'' r1 ''" and after = ?after
        and hs = ?hs and loads = json_loads, THEN conjunct2, THEN conjunct1, THEN mp, OF pre2,
        THEN conjunct1] .
  have w2b: "\<exists>p. build_payload_B json_loads (clean_row ?raw) ?hs None = Inr p \<and>
      resource_id_of p = Some (PStr (strip '' r1 ''))"
    using resource_id_resolution [where ov = None and raw = ?raw and before = "[]"
        and k = "'' resourceId''" and x = "'' r1 ''" and after = ?after
        and hs = ?hs and loads = json_loads, THEN conjunct2, THEN conjunct1, THEN mp, OF pre2,
        THEN conjunct2, THEN conjunct2, THEN mp, OF ok2] .
  have pre3: "(Some '''' = (None :: string option) \<or> Some '''' = Some []) \<and>
      dict_get [(Some ''resourceId'', PStr '''')] (Some ''resourceId'') = PStr []"
    by (simp add: dict_get_def)
  have w3: "build_payload_B json_loads [(Some ''resourceId'', PStr '''')] [''resourceId''] (Some '''') =
     Inl MissingResourceId"
    using resource_id_resolution [where ov = "Some ''''" and csv_row = "[(Some ''resourceId'', PStr '''')]"
        and hs = "[''resourceId'']" and loads = json_loads, THEN conjunct2, THEN conjunct2, THEN mp,
        OF pre3] .
  show ?thesis
    using w1 w1b w2 w2b w3 unfolding s by blast
qed

section \<open>The per-row URL\<close>

lemma rstrip_chars_replicate:
  assumes "p c" and "b = [] \<or> \<not> p (last b)"
  shows "rstrip_chars p (b @ replicate n c) = b"
proof -
  have "dropWhile p (replicate n c @ rev b) = dropWhile p (rev b)"
    using assms(1) by (induction n) auto
  moreover have "dropWhile p (rev b) = rev b"
    using assms(2) by (cases "rev b") (auto simp: last_rev [symmetric] simp del: last_rev)
  ultimately show ?thesis
    by (simp add: rstrip_chars_def)
qed

text \<open>
  \<^bold>\<open>C7\<close> as the specification words it (one trailing slash trimmed) fails on a base that
  ends in two slashes: \<^verbatim>\<open>rstrip('/')\<close> removes both, where the specification's wording
  leaves one in place.
\<close>

theorem row_url_counterexample:
  "row_url \<lparr>api_url = ''https://api.example.com/res//'', auth_token = None, id_column = Some ''id'',
            resource_id = None, timeout = 10, dry_run = False\<rparr>
       [(Some ''id'', PStr ''42'')] [''id''] = Inr ''https://api.example.com/res/42'' \<and>
   spec_row_url ''https://api.example.com/res//'' ''42'' = ''https://api.example.com/res//42''"
  by (simp add: row_url_def rstrip_chars_def dict_get_def spec_row_url_def spec_trim_one_slash_def
      endswith_def)

text \<open>
  \<^bold>\<open>C7, amended.\<close> With an id-column configured (a non-empty name), the per-row URL is the
  base with \<^emph>\<open>all\<close> its trailing slashes removed, then \<^verbatim>\<open>/\<close>, then \<^verbatim>\<open>str\<close> of the row's value
  for that column (the value itself when it is a string); when the column is not a key of
  the row, the missing-column error is raised. The base is written here as \<open>b\<close> followed
  by \<open>n\<close> slashes, \<open>b\<close> not ending in a slash.
\<close>

theorem row_url_rule:
  assumes "id_column a = Some col" and "col \<noteq> []"
    and "api_url a = b @ replicate n (CHR ''/'')" and "b = [] \<or> last b \<noteq> CHR ''/''"
  shows "(Some col \<notin> fst ` set row \<longrightarrow> row_url a row hs = Inl (MissingIdColumn col hs)) \<and>
         (\<forall>v. map_of row (Some col) = Some v \<longrightarrow> row_url a row hs = Inr (b @ ''/'' @ str v)) \<and>
         (\<forall>x. map_of row (Some col) = Some (PStr x) \<longrightarrow> row_url a row hs = Inr (b @ ''/'' @ x))"
proof -
  have r: "rstrip_chars (\<lambda>c. c = CHR ''/'') (api_url a) = b"
    using assms(3,4) rstrip_chars_replicate [of "\<lambda>c. c = CHR ''/''" "CHR ''/''" b n] by simp
  have m: "row_url a row hs = Inl (MissingIdColumn col hs)" if "Some col \<notin> fst ` set row"
    using that assms(1,2) by (simp add: row_url_def)
  have v: "row_url a row hs = Inr (b @ ''/'' @ str v)" if "map_of row (Some col) = Some v" for v
  proof -
    have "Some col \<in> fst ` set row"
      using that by (metis map_of_eq_None_iff option.distinct(1))
    then show ?thesis
      using that assms(1,2) r by (simp add: row_url_def dict_get_def)
  qed
  show ?thesis
    using m v by (auto simp: str_def)
qed

theorem row_url_rule_witness:
  "row_url \<lparr>api_url = ''https://api.example.com/res'', auth_token = None, id_column = Some ''id'',
            resource_id = None, timeout = 10, dry_run = False\<rparr>
       [(Some ''id'', PStr ''42'')] [''id''] = Inr ''https://api.example.com/res/42'' \<and>
   row_url \<lparr>api_url = ''https://api.example.com/res/'', auth_token = None, id_column = Some ''id'',
            resource_id = None, timeout = 10, dry_run = False\<rparr>
       [(Some ''id'', PStr ''42'')] [''id''] = Inr ''https://api.example.com/res/42'' \<and>
   row_url \<lparr>api_url = ''https://api.example.com/res/'', auth_token = None, id_column = Some ''key'',
            resource_id = None, timeout = 10, dry_run = False\<rparr>
       [(Some ''id'', PStr ''42'')] [''id''] = Inl (MissingIdColumn ''key'' [''id''])"
proof -
  let ?a0 = "\<lparr>api_url = ''https://api.example.com/res'', auth_token = None, id_column = Some ''id'',
            resource_id = None, timeout = 10, dry_run = False\<rparr>"
  let ?a1 = "\<lparr>api_url = ''https://api.example.com/res/'', auth_token = None, id_column = Some ''id'',
            resource_id = None, timeout = 10, dry_run = False\<rparr>"
  let ?a2 = "\<lparr>api_url = ''https://api.example.com/res/'', auth_token = None, id_column = Some ''key'',
            resource_id = None, timeout = 10, dry_run = False\<rparr>"
  have w0: "row_url ?a0 [(Some ''id'', PStr ''42'')] [''id''] = Inr (''https://api.example.com/res'' @ ''/'' @ ''42'')"
    using row_url_rule [of ?a0 "''id''" "''https://api.example.com/res''" 0 "[(Some ''id'', PStr ''42'')]" "[''id'']",
        THEN conjunct2, THEN conjunct2]
    by simp
  have w1: "row_url ?a1 [(Some ''id'', PStr ''42'')] [''id''] = Inr (''https://api.example.com/res'' @ ''/'' @ ''42'')"
    using row_url_rule [of ?a1 "''id''" "''https://api.example.com/res''" 1 "[(Some ''id'', PStr ''42'')]" "[''id'']",
        THEN conjunct2, THEN conjunct2]
    by simp
  have w2: "row_url ?a2 [(Some ''id'', PStr ''42'')] [''id''] = Inl (MissingIdColumn ''key'' [''id''])"
    using row_url_rule [of ?a2 "''key''" "''https://api.example.com/res''" 1 "[(Some ''id'', PStr ''42'')]" "[''id'']",
        THEN conjunct1]
    by simp
  show ?thesis
    using w0 w1 w2 by simp
qed

section \<open>The row loop\<close>

lemma main_rows:
  "main build put a None rows = ([], Some NoHeaderRow)"
  "main build put a (Some names) rows =
     (FieldsDetected (map strip names) # fst (process_rows build put a (map strip names) 1 rows),
      snd (process_rows build put a (map strip names) 1 rows))"
  by (simp_all add: main_def Let_def split: prod.splits)

lemma process_rows_step:
  assumes "row_url a row hs = Inr url" and "build (clean_row row) hs (resource_id a) = Inr payload"
  shows "process_rows build put a hs i (row # rows) =
           ((if dry_run a then DryRun i url payload
             else report i url (put i url payload (request_headers a) (timeout a)))
            # fst (process_rows build put a hs (Suc i) rows),
            snd (process_rows build put a hs (Suc i) rows))"
  using assms by (simp add: Let_def send_row_put_def split: prod.splits)

lemma process_rows_abort:
  "(snd (process_rows build put a hs i rows) = None \<longrightarrow>
      length (fst (process_rows build put a hs i rows)) = length rows) \<and>
   (\<forall>e. snd (process_rows build put a hs i rows) = Some e \<longrightarrow>
      length (fst (process_rows build put a hs i rows)) < length rows \<and>
      (let row = rows ! length (fst (process_rows build put a hs i rows))
       in row_url a row hs = Inl e \<or>
          (\<exists>url. row_url a row hs = Inr url) \<and> build (clean_row row) hs (resource_id a) = Inl e))"
proof (induction rows arbitrary: i)
  case Nil
  show ?case by simp
next
  case (Cons row rows)
  show ?case
  proof (cases "row_url a row hs")
    case (Inl e)
    then show ?thesis by simp
  next
    case u: (Inr url)
    show ?thesis
    proof (cases "build (clean_row row) hs (resource_id a)")
      case (Inl e)
      then show ?thesis using u by simp
    next
      case (Inr payload)
      show ?thesis
        using Cons.IH [of "Suc i"]
        unfolding process_rows_step [where build = build, OF u Inr]
        by (simp add: Let_def del: process_rows.simps)
    qed
  qed
qed

text \<open>
  \<^bold>\<open>C8.\<close> For a row whose URL is built: if the payload builder raises, the loop stops there
  with that error and prints nothing for this row or any later one; if the builder
  succeeds and the PUT raises a \<^verbatim>\<open>RequestException\<close>, the loop prints the error line and
  goes on with the next row; if the PUT answers with a status outside 200..299, the loop
  prints the failure line with the first 500 characters of the body and goes on. Over a
  whole batch: a run that ends without error has printed one line per row, and a run that
  ends with an error stopped at the first row whose URL or payload could not be built,
  never because of the network. The builder is any function, so this holds for both
  variants.
\<close>

theorem row_failure_policy:
  assumes "row_url a row hs = Inr url"
  shows "(\<forall>e. build (clean_row row) hs (resource_id a) = Inl e \<longrightarrow>
            process_rows build put a hs i (row # rows) = ([], Some e)) \<and>
         (\<forall>payload. build (clean_row row) hs (resource_id a) = Inr payload \<and> \<not> dry_run a \<longrightarrow>
            (\<forall>msg. put i url payload (request_headers a) (timeout a) = Inl msg \<longrightarrow>
               process_rows build put a hs i (row # rows) =
                 (RequestFailed i msg # fst (process_rows build put a hs (Suc i) rows),
                  snd (process_rows build put a hs (Suc i) rows))) \<and>
            (\<forall>resp. put i url payload (request_headers a) (timeout a) = Inr resp \<and>
                    \<not> (200 \<le> status_code resp \<and> status_code resp < 300) \<longrightarrow>
               process_rows build put a hs i (row # rows) =
                 (RowFail i url (status_code resp) (take 500 (resp_text resp))
                    # fst (process_rows build put a hs (Suc i) rows),
                  snd (process_rows build put a hs (Suc i) rows)))) \<and>
         (\<forall>batch. snd (process_rows build put a hs i batch) = None \<longrightarrow>
            length (fst (process_rows build put a hs i batch)) = length batch) \<and>
         (\<forall>batch e. snd (process_rows build put a hs i batch) = Some e \<longrightarrow>
            length (fst (process_rows build put a hs i batch)) < length batch \<and>
            (let bad = batch ! length (fst (process_rows build put a hs i batch))
             in row_url a bad hs = Inl e \<or> build (clean_row bad) hs (resource_id a) = Inl e))"
proof -
  have ab: "process_rows build put a hs i (row # rows) = ([], Some e)"
    if "build (clean_row row) hs (resource_id a) = Inl e" for e
    using that assms by simp
  have tr: "process_rows build put a hs i (row # rows) =
                 (RequestFailed i msg # fst (process_rows build put a hs (Suc i) rows),
                  snd (process_rows build put a hs (Suc i) rows))"
    if "build (clean_row row) hs (resource_id a) = Inr payload" "\<not> dry_run a"
      "put i url payload (request_headers a) (timeout a) = Inl msg" for payload msg
    using that(2,3) unfolding process_rows_step [where build = build, OF assms that(1)]
    by (simp add: report_def del: process_rows.simps)
  have fl: "process_rows build put a hs i (row # rows) =
                 (RowFail i url (status_code resp) (take 500 (resp_text resp))
                    # fst (process_rows build put a hs (Suc i) rows),
                  snd (process_rows build put a hs (Suc i) rows))"
    if "build (clean_row row) hs (resource_id a) = Inr payload" "\<not> dry_run a"
      "put i url payload (request_headers a) (timeout a) = Inr resp"
      "\<not> (200 \<le> status_code resp \<and> status_code resp < 300)" for payload resp
    using that(2,3,4) unfolding process_rows_step [where build = build, OF assms that(1)]
    by (simp add: report_def del: process_rows.simps)
  have g1: "length (fst (process_rows build put a hs i batch)) = length batch"
    if "snd (process_rows build put a hs i batch) = None" for batch
    using process_rows_abort [of build put a hs i batch] that by blast
  have g2: "length (fst (process_rows build put a hs i batch)) < length batch \<and>
            (let bad = batch ! length (fst (process_rows build put a hs i batch))
             in row_url a bad hs = Inl e \<or> build (clean_row bad) hs (resource_id a) = Inl e)"
    if "snd (process_rows build put a hs i batch) = Some e" for batch e
    using process_rows_abort [of build put a hs i batch] that by (auto simp: Let_def)
  show ?thesis
    using ab tr fl g1 g2 by blast
qed

theorem row_failure_policy_witness:
  \<open>process_rows (build_payload_B json_loads) (\<lambda>i url payload headers tmo. Inl ''timed out'')
      \<lparr>api_url = ''https://api.example.com/res'', auth_token = None, id_column = None,
       resource_id = None, timeout = 10, dry_run = False\<rparr>
      [''resourceId'', ''mfaEnabled''] 1
      [[(Some ''resourceId'', PStr ''r1''), (Some ''mfaEnabled'', PStr ''maybe'')],
       [(Some ''resourceId'', PStr ''r2''), (Some ''mfaEnabled'', PStr ''yes'')]] =
     ([], Some (InvalidBoolean (PStr ''maybe''))) \<and>
   process_rows (build_payload_B json_loads) (\<lambda>i url payload headers tmo. Inl ''timed out'')
      \<lparr>api_url = ''https://api.example.com/res'', auth_token = None, id_column = None,
       resource_id = None, timeout = 10, dry_run = False\<rparr>
      [''resourceId'', ''mfaEnabled''] 1
      [[(Some ''resourceId'', PStr ''r2''), (Some ''mfaEnabled'', PStr ''yes'')]] =
     ([RequestFailed 1 ''timed out''], None) \<and>
   process_rows (build_payload_B json_loads)
      (\<lambda>i url payload headers tmo. Inr \<lparr>status_code = 503, resp_text = replicate 600 (CHR ''x'')\<rparr>)
      \<lparr>api_url = ''https://api.example.com/res'', auth_token = None, id_column = None,
       resource_id = None, timeout = 10, dry_run = False\<rparr>
      [''resourceId'', ''mfaEnabled''] 1
      [[(Some ''resourceId'', PStr ''r2''), (Some ''mfaEnabled'', PStr ''yes'')]] =
     ([RowFail 1 ''https://api.example.com/res'' 503 (replicate 500 (CHR ''x''))], None)\<close>
proof -
  let ?a = "\<lparr>api_url = ''https://api.example.com/res'', auth_token = None, id_column = None,
       resource_id = None, timeout = 10, dry_run = False\<rparr>"
  let ?hs = "[''resourceId'', ''mfaEnabled'']"
  let ?bad = "[(Some ''resourceId'', PStr ''r1''), (Some ''mfaEnabled'', PStr ''maybe'')]"
  let ?good = "[(Some ''resourceId'', PStr ''r2''), (Some ''mfaEnabled'', PStr ''yes'')]"
  let ?payload = "PDict [(Some ''resources'', PList [PDict [(Some ''mfaEnabled'', PBool True)]]),
                         (Some ''resourceId'', PStr ''r2'')]"
  let ?down = "\<lambda>(i::nat) (url::string) (payload::pyval) (headers::(string \<times> string) list) (tmo::int).
                 (Inl ''timed out'' :: string + response)"
  let ?busy = "\<lambda>(i::nat) (url::string) (payload::pyval) (headers::(string \<times> string) list) (tmo::int).
                 (Inr \<lparr>status_code = 503, resp_text = replicate 600 (CHR ''x'')\<rparr> :: string + response)"
  have u: "row_url ?a row ?hs = Inr ''https://api.example.com/res''" for row
    by (simp add: row_url_def)
  have bb: "build_payload_B json_loads (clean_row ?bad) ?hs (resource_id ?a) =
      Inl (InvalidBoolean (PStr ''maybe''))"
    by code_simp
  have bg: "build_payload_B json_loads (clean_row ?good) ?hs (resource_id ?a) = Inr ?payload"
    by code_simp
  have w1: "process_rows (build_payload_B json_loads) ?down ?a ?hs 1 [?bad, ?good] =
      ([], Some (InvalidBoolean (PStr ''maybe'')))"
    using row_failure_policy [where build = "build_payload_B json_loads" and put = ?down and i = 1
        and rows = "[?good]", OF u [of ?bad], THEN conjunct1, THEN spec, THEN mp, OF bb] .
  have w2: "process_rows (build_payload_B json_loads) ?down ?a ?hs 1 [?good] =
      ([RequestFailed 1 ''timed out''], None)"
    using row_failure_policy [where build = "build_payload_B json_loads" and put = ?down and i = 1
        and rows = "[]", OF u [of ?good], THEN conjunct2, THEN conjunct1, THEN spec, THEN mp,
        THEN conjunct1, THEN spec, THEN mp] bg
    by simp
  have w3: "process_rows (build_payload_B json_loads) ?busy ?a ?hs 1 [?good] =
      ([RowFail 1 ''https://api.example.com/res'' 503 (replicate 500 (CHR ''x''))], None)"
    using row_failure_policy [where build = "build_payload_B json_loads" and put = ?busy and i = 1
        and rows = "[]", OF u [of ?good], THEN conjunct2, THEN conjunct1, THEN spec, THEN mp,
        THEN conjunct2, THEN spec, THEN mp] bg
    by simp
  show ?thesis
    using w1 w2 w3 by blast
qed

section \<open>Determinism\<close>

lemma build_fields_call_pure:
  "build_fields_call loads hs obj e = (build_fields loads (env_row e) hs obj, e)"
proof (induction hs arbitrary: obj)
  case Nil
  show ?case by simp
next
  case (Cons h hs)
  show ?case
    by (simp add: Cons.IH row_get_def Let_def split: option.splits sum.splits)
qed

lemma build_payload_A_call_pure:
  "build_payload_A_call ov e = (build_payload_A (env_row e) (env_headers e) ov, e)"
  by (simp add: build_payload_A_call_def build_payload_A_def row_get_def row_items_def Let_def)

lemma build_payload_B_call_pure:
  "build_payload_B_call loads ov e = (build_payload_B loads (env_row e) (env_headers e) ov, e)"
  by (simp add: build_payload_B_call_def build_payload_B_def row_get_def headers_iter_def
      build_fields_call_pure Let_def split: sum.splits)

text \<open>
  \<^bold>\<open>C9.\<close> A call of \<^verbatim>\<open>build_payload\<close> reads the caller's record and column list and leaves
  both as they were, so a second call on the same objects starts from the same inputs. In
  both variants, two calls in a row with the same override give the same result (the same
  payload, or the same error), which is the result of the builder on the record, the
  column list and the override; the two objects are afterwards what they were; and when
  the results are payloads, \<^verbatim>\<open>json.dumps\<close> writes the same text for both.
\<close>

theorem build_payload_deterministic:
  "(\<forall>r1 r2 e'. twice (build_payload_A_call ov) e = (r1, r2, e') \<longrightarrow>
      r1 = r2 \<and> e' = e \<and> r1 = build_payload_A (env_row e) (env_headers e) ov \<and>
      (\<forall>p1 p2. r1 = Inr p1 \<and> r2 = Inr p2 \<longrightarrow> dumps p1 = dumps p2)) \<and>
   (\<forall>r1 r2 e'. twice (build_payload_B_call loads ov) e = (r1, r2, e') \<longrightarrow>
      r1 = r2 \<and> e' = e \<and> r1 = build_payload_B loads (env_row e) (env_headers e) ov \<and>
      (\<forall>p1 p2. r1 = Inr p1 \<and> r2 = Inr p2 \<longrightarrow> dumps p1 = dumps p2))"
proof -
  have A: "twice (build_payload_A_call ov) e =
      (build_payload_A (env_row e) (env_headers e) ov,
       build_payload_A (env_row e) (env_headers e) ov, e)"
    by (simp add: twice_def build_payload_A_call_pure)
  have B: "twice (build_payload_B_call loads ov) e =
      (build_payload_B loads (env_row e) (env_headers e) ov,
       build_payload_B loads (env_row e) (env_headers e) ov, e)"
    by (simp add: twice_def build_payload_B_call_pure)
  show ?thesis
    unfolding A B by auto
qed

theorem build_payload_deterministic_witness:
  \<open>twice (build_payload_A_call None)
      \<lparr>env_row = [(Some ''resourceId'', PStr ''r1''), (Some ''displayName'', PStr ''Ann''),
                  (Some ''team'', PStr ''core'')],
       env_headers = [''resourceId'', ''displayName'', ''team'']\<rparr> =
     (Inr (PDict [(Some ''resourceId'', PStr ''r1''),
                  (Some ''resources'',
                   PList [PDict [(Some ''displayName'', PStr ''Ann''),
                                 (Some ''customProperties'', PDict [(Some ''team'', PStr ''core'')])]])]),
      Inr (PDict [(Some ''resourceId'', PStr ''r1''),
                  (Some ''resources'',
                   PList [PDict [(Some ''displayName'', PStr ''Ann''),
                                 (Some ''customProperties'', PDict [(Some ''team'', PStr ''core'')])]])]),
      \<lparr>env_row = [(Some ''resourceId'', PStr ''r1''), (Some ''displayName'', PStr ''Ann''),
                  (Some ''team'', PStr ''core'')],
       env_headers = [''resourceId'', ''displayName'', ''team'']\<rparr>) \<and>
   dumps (PDict [(Some ''resourceId'', PStr ''r1''),
                 (Some ''resources'',
                  PList [PDict [(Some ''displayName'', PStr ''Ann''),
                                (Some ''customProperties'', PDict [(Some ''team'', PStr ''core'')])]])]) =
     ''{"resourceId": "r1", "resources": [{"displayName": "Ann", "customProperties": {"team": "core"}}]}'' \<and>
   (\<exists>p. twice (build_payload_B_call json_loads None)
          \<lparr>env_row = [(Some ''resourceId'', PStr ''r1''), (Some ''mfaEnabled'', PStr ''yes''),
                      (Some ''mfaMethods'', PStr ''SMS,TOTP'')],
           env_headers = [''resourceId'', ''mfaEnabled'', ''mfaMethods'']\<rparr> =
         (Inr p, Inr p,
          \<lparr>env_row = [(Some ''resourceId'', PStr ''r1''), (Some ''mfaEnabled'', PStr ''yes''),
                      (Some ''mfaMethods'', PStr ''SMS,TOTP'')],
           env_headers = [''resourceId'', ''mfaEnabled'', ''mfaMethods'']\<rparr>) \<and>
        dumps p =
          ''{"resources": [{"mfaEnabled": true, "mfaMethods": ["SMS", "TOTP"]}], "resourceId": "r1"}'')\<close>
proof -
  let ?eA = "\<lparr>env_row = [(Some ''resourceId'', PStr ''r1''), (Some ''displayName'', PStr ''Ann''),
                  (Some ''team'', PStr ''core'')],
       env_headers = [''resourceId'', ''displayName'', ''team'']\<rparr>"
  let ?eB = "\<lparr>env_row = [(Some ''resourceId'', PStr ''r1''), (Some ''mfaEnabled'', PStr ''yes''),
                      (Some ''mfaMethods'', PStr ''SMS,TOTP'')],
           env_headers = [''resourceId'', ''mfaEnabled'', ''mfaMethods'']\<rparr>"
  let ?pA = "PDict [(Some ''resourceId'', PStr ''r1''),
                 (Some ''resources'',
                  PList [PDict [(Some ''displayName'', PStr ''Ann''),
                                (Some ''customProperties'', PDict [(Some ''team'', PStr ''core'')])]])]"
  let ?pB = "PDict [(Some ''resources'',
                    PList [PDict [(Some ''mfaEnabled'', PBool True),
                                  (Some ''mfaMethods'', PList [PStr ''SMS'', PStr ''TOTP''])]]),
                   (Some ''resourceId'', PStr ''r1'')]"
  have bA: "build_payload_A (env_row ?eA) (env_headers ?eA) None = Inr ?pA"
    by (simp add: build_payload_A_def override_or_def dict_get_def excluded_keys_def in_none_or_empty_def)
  have bB: "build_payload_B json_loads (env_row ?eB) (env_headers ?eB) None = Inr ?pB"
    by code_simp
  obtain a1 a2 ea where tA: "twice (build_payload_A_call None) ?eA = (a1, a2, ea)"
    by (cases "twice (build_payload_A_call None) ?eA") auto
  obtain b1 b2 eb where tB: "twice (build_payload_B_call json_loads None) ?eB = (b1, b2, eb)"
    by (cases "twice (build_payload_B_call json_loads None) ?eB") auto
  have rA: "a1 = a2 \<and> ea = ?eA \<and> a1 = build_payload_A (env_row ?eA) (env_headers ?eA) None"
    using build_payload_deterministic [where ov = None and e = ?eA, THEN conjunct1,
        THEN spec, THEN spec, THEN spec, THEN mp, OF tA]
    by blast
  have rB: "b1 = b2 \<and> eb = ?eB \<and> b1 = build_payload_B json_loads (env_row ?eB) (env_headers ?eB) None"
    using build_payload_deterministic [where ov = None and e = ?eB and loads = json_loads,
        THEN conjunct2, THEN spec, THEN spec, THEN spec, THEN mp, OF tB]
    by blast
  have wA: "twice (build_payload_A_call None) ?eA = (Inr ?pA, Inr ?pA, ?eA)"
    using tA rA bA by metis
  have wB: "twice (build_payload_B_call json_loads None) ?eB = (Inr ?pB, Inr ?pB, ?eB)"
    using tB rB bB by metis
  have dA: \<open>dumps ?pA =
     ''{"resourceId": "r1", "resources": [{"displayName": "Ann", "customProperties": {"team": "core"}}]}''\<close>
    by code_simp
  have dB: \<open>dumps ?pB =
     ''{"resources": [{"mfaEnabled": true, "mfaMethods": ["SMS", "TOTP"]}], "resourceId": "r1"}''\<close>
    by code_simp
  show ?thesis
    using wA wB dA dB by blast
qed

end
